theory Spec2Isabelle
  imports Main "HOL-Library.Sublist" "HOL-Library.Multiset"
begin

section \<open>Strings of the dashboard\<close>

text \<open>
  A JavaScript string is a sequence of UTF-16 code units. The model is \<^typ>\<open>string\<close>,
  every \<^typ>\<open>char\<close> read as the code unit of the same number, so it covers the strings
  whose code units are below 256 (ASCII and Latin-1). On these,
  \<^verbatim>\<open>String.prototype.trim\<close> removes TAB, LF, VT, FF, CR, SPACE and NBSP from both
  ends, and \<^verbatim>\<open>String.prototype.toLowerCase\<close> maps A..Z and the capital letters
  U+00C0..U+00DE (but the sign U+00D7) to the letter 32 code units later, one code unit
  at a time.
\<close>

definition isWhiteSpace :: "char \<Rightarrow> bool" where
  "isWhiteSpace c = ((of_char c :: nat) \<in> {9, 10, 11, 12, 13, 32, 160})"

definition trim :: "string \<Rightarrow> string" where
  "trim s = rev (dropWhile isWhiteSpace (rev (dropWhile isWhiteSpace s)))"

definition lowerChar :: "char \<Rightarrow> char" where
  "lowerChar c =
     (let n = (of_char c :: nat)
      in if (65 \<le> n \<and> n \<le> 90) \<or> (192 \<le> n \<and> n \<le> 222 \<and> n \<noteq> 215)
         then char_of (n + 32) else c)"

definition toLowerCase :: "string \<Rightarrow> string" where
  "toLowerCase s = map lowerChar s"

text \<open>\<^verbatim>\<open>haystack.includes(needle)\<close>: the needle starts at some position of the haystack.\<close>

fun str_includes :: "'a list \<Rightarrow> 'a list \<Rightarrow> bool" where
  "str_includes [] needle = (needle = [])"
| "str_includes (h # hs) needle = (prefix needle (h # hs) \<or> str_includes hs needle)"

text \<open>\<^verbatim>\<open>a ?? b\<close>: the left operand unless it is null or undefined (\<open>None\<close>).\<close>

definition nullish :: "'a option \<Rightarrow> 'a \<Rightarrow> 'a" where
  "nullish a b = (case a of None \<Rightarrow> b | Some v \<Rightarrow> v)"

section \<open>The record model (types/internship.ts)\<close>

text \<open>
  \<^verbatim>\<open>InternshipStatus\<close> is a union of five string literals. At run time a status is a
  string and nothing checks the union, so the model keeps the string.
  \<^verbatim>\<open>createdAt\<close> is a Firestore \<^verbatim>\<open>Timestamp\<close> or null; the code only ever reads
  \<^verbatim>\<open>createdAt.toDate().getTime()\<close> of it, a whole number of milliseconds since the
  epoch, negative before 1970: the model keeps that number.
  The fields \<^verbatim>\<open>id\<close> and \<^verbatim>\<open>notes\<close> are \<open>intern_id\<close> and \<open>item_notes\<close> here, their
  own names being taken in Isabelle; an absent \<^verbatim>\<open>notes\<close> is \<open>None\<close>.
\<close>

type_synonym InternshipStatus = string

record Internship =
  intern_id :: string
  company :: string
  role :: string
  status :: InternshipStatus
  item_notes :: "string option"
  createdAt :: "int option"

definition STATUS_OPTIONS :: "(InternshipStatus \<times> string) list" where
  "STATUS_OPTIONS =
     [(''applied'', ''Applied''),
      (''online_assessment'', ''Online Assessment''),
      (''interview'', ''Interview''),
      (''offer'', ''Offer''),
      (''rejected'', ''Rejected'')]"

text \<open>Membership in the enumeration: one of the five values of \<open>STATUS_OPTIONS\<close>.\<close>

definition isInternshipStatus :: "string \<Rightarrow> bool" where
  "isInternshipStatus s = (s \<in> set (map fst STATUS_OPTIONS))"

section \<open>Inbound snapshots (the onSnapshot callback)\<close>

text \<open>
  What the callback reads of a document of the snapshot: \<^verbatim>\<open>docSnap.id\<close> and five
  fields of \<^verbatim>\<open>docSnap.data()\<close>. A field that is absent or null is \<open>None\<close>; a field
  that is present holds a value of its declared type (a string, a timestamp).
\<close>

record DocSnap =
  doc_id :: string
  data_company :: "string option"
  data_role :: "string option"
  data_status :: "string option"
  data_notes :: "string option"
  data_createdAt :: "int option"

definition mapDoc :: "DocSnap \<Rightarrow> Internship" where
  "mapDoc docSnap =
     \<lparr> intern_id = doc_id docSnap,
       company = nullish (data_company docSnap) '''',
       role = nullish (data_role docSnap) '''',
       status = nullish (data_status docSnap) ''applied'',
       item_notes = Some (nullish (data_notes docSnap) ''''),
       createdAt = data_createdAt docSnap \<rparr>"

definition mapSnapshot :: "DocSnap list \<Rightarrow> Internship list" where
  "mapSnapshot docs = map mapDoc docs"

section \<open>Derived data: counts, filter, search, sort\<close>

definition totalCount :: "Internship list \<Rightarrow> nat" where
  "totalCount internships = length internships"

text \<open>
  \<^verbatim>\<open>STATUS_OPTIONS.reduce((acc, opt) => { acc[opt.value] = ...; return acc }, {})\<close>:
  a left fold that stores one count per option in an object, here a map.
\<close>

definition statusCounts :: "Internship list \<Rightarrow> (InternshipStatus \<rightharpoonup> nat)" where
  "statusCounts internships =
     foldl (\<lambda>acc opt. acc(fst opt \<mapsto> length (filter (\<lambda>i. status i = fst opt) internships)))
       Map.empty STATUS_OPTIONS"

text \<open>The badge of a filter chip: \<^verbatim>\<open>statusCounts[opt.value] ?? 0\<close>.\<close>

definition chipCount :: "(InternshipStatus \<rightharpoonup> nat) \<Rightarrow> InternshipStatus \<Rightarrow> nat" where
  "chipCount counts v = nullish (counts v) 0"

definition normalizedSearch :: "string \<Rightarrow> string" where
  "normalizedSearch searchTerm = toLowerCase (trim searchTerm)"

definition matchesStatus :: "string \<Rightarrow> Internship \<Rightarrow> bool" where
  "matchesStatus statusFilter item = (statusFilter = ''all'' \<or> status item = statusFilter)"

definition haystack :: "Internship \<Rightarrow> string" where
  "haystack item =
     toLowerCase (company item @ '' '' @ role item @ '' '' @ nullish (item_notes item) '''')"

definition matchesSearch :: "string \<Rightarrow> Internship \<Rightarrow> bool" where
  "matchesSearch searchTerm item =
     (normalizedSearch searchTerm = '''' \<or> str_includes (haystack item) (normalizedSearch searchTerm))"

definition filteredInternships :: "string \<Rightarrow> string \<Rightarrow> Internship list \<Rightarrow> Internship list" where
  "filteredInternships statusFilter searchTerm internships =
     filter (\<lambda>item. matchesStatus statusFilter item \<and> matchesSearch searchTerm item) internships"

text \<open>
  \<^verbatim>\<open>Array.prototype.sort(compare)\<close>: for a consistent comparator the language fixes
  the result, the stable ordering by the comparator (an element stays before the ones it
  compares equal to and came before). Insertion from the right end computes it: an
  element is put before the first element it does not compare greater than.
\<close>

fun insert_sorted :: "('a \<Rightarrow> 'a \<Rightarrow> int) \<Rightarrow> 'a \<Rightarrow> 'a list \<Rightarrow> 'a list" where
  "insert_sorted cmp x [] = [x]"
| "insert_sorted cmp x (y # ys) =
     (if cmp x y \<le> 0 then x # y # ys else y # insert_sorted cmp x ys)"

definition array_sort :: "('a \<Rightarrow> 'a \<Rightarrow> int) \<Rightarrow> 'a list \<Rightarrow> 'a list" where
  "array_sort cmp xs = foldr (insert_sorted cmp) xs []"

definition getTime :: "Internship \<Rightarrow> int" where
  "getTime x = (case createdAt x of Some t \<Rightarrow> t | None \<Rightarrow> 0)"

text \<open>
  The comparator of \<open>sortedInternships\<close>. \<^verbatim>\<open>String.prototype.localeCompare\<close> belongs
  to the host, not to the repository: it is the parameter \<open>localeCompare\<close>.
\<close>

definition compareInternships ::
  "(string \<Rightarrow> string \<Rightarrow> int) \<Rightarrow> string \<Rightarrow> Internship \<Rightarrow> Internship \<Rightarrow> int" where
  "compareInternships localeCompare sortOption a b =
     (if sortOption = ''newest'' then getTime b - getTime a
      else if sortOption = ''oldest'' then getTime a - getTime b
      else
        (let aCompany = toLowerCase (company a); bCompany = toLowerCase (company b)
         in if sortOption = ''company-az'' then localeCompare aCompany bCompany
            else if sortOption = ''company-za'' then localeCompare bCompany aCompany
            else 0))"

definition sortedInternships ::
  "(string \<Rightarrow> string \<Rightarrow> int) \<Rightarrow> string \<Rightarrow> Internship list \<Rightarrow> Internship list" where
  "sortedInternships localeCompare sortOption filtered =
     array_sort (compareInternships localeCompare sortOption) filtered"

text \<open>
  What ECMA-402 asks of \<^verbatim>\<open>localeCompare\<close>, and \<^verbatim>\<open>Array.prototype.sort\<close> of any
  comparator: the sign flips with the arguments, and "not greater" is transitive.
\<close>

definition consistent_compare :: "(string \<Rightarrow> string \<Rightarrow> int) \<Rightarrow> bool" where
  "consistent_compare localeCompare =
     ((\<forall>a b. (localeCompare a b < 0) = (0 < localeCompare b a)) \<and>
      (\<forall>a b c. localeCompare a b \<le> 0 \<and> localeCompare b c \<le> 0 \<longrightarrow> localeCompare a c \<le> 0))"

text \<open>
  One consistent comparator to evaluate with: the comparison by code units, which is
  what \<^verbatim>\<open>localeCompare\<close> gives on lower-case ASCII letters.
\<close>

fun codeUnitCompare :: "string \<Rightarrow> string \<Rightarrow> int" where
  "codeUnitCompare [] [] = 0"
| "codeUnitCompare [] (y # ys) = - 1"
| "codeUnitCompare (x # xs) [] = 1"
| "codeUnitCompare (x # xs) (y # ys) =
     (if (of_char x :: nat) < of_char y then - 1
      else if (of_char y :: nat) < of_char x then 1
      else codeUnitCompare xs ys)"

text \<open>The whole derivation: what one render computes from the four inputs.\<close>

record ViewState =
  view_total :: nat
  view_counts :: "InternshipStatus \<rightharpoonup> nat"
  view_filtered :: "Internship list"
  view_sorted :: "Internship list"

definition deriveView ::
  "(string \<Rightarrow> string \<Rightarrow> int) \<Rightarrow> Internship list \<Rightarrow> string \<Rightarrow> string \<Rightarrow> string \<Rightarrow> ViewState" where
  "deriveView localeCompare cached filterChoice search sortChoice =
     \<lparr> view_total = totalCount cached,
       view_counts = statusCounts cached,
       view_filtered = filteredInternships filterChoice search cached,
       view_sorted =
         sortedInternships localeCompare sortChoice
           (filteredInternships filterChoice search cached) \<rparr>"

section \<open>The dashboard's state and its handlers\<close>

text \<open>
  The state of \<open>DashboardPage\<close>: the \<^verbatim>\<open>useState\<close> cells, the user of
  \<^verbatim>\<open>useAuth()\<close> (by uid, \<open>None\<close> for null) and the live listener that
  \<^verbatim>\<open>onSnapshot\<close> returned a handle for (by the uid it listens to). The form's cells
  \<^verbatim>\<open>company\<close>, \<^verbatim>\<open>role\<close>, \<^verbatim>\<open>status\<close> and \<^verbatim>\<open>notes\<close> carry the suffix \<open>_st\<close>.
\<close>

record DashboardState =
  user :: "string option"
  company_st :: string
  role_st :: string
  status_st :: InternshipStatus
  notes_st :: string
  internships :: "Internship list"
  loadingList :: bool
  saving :: bool
  error :: "string option"
  isEditing :: bool
  editingId :: "string option"
  statusFilter :: string
  searchTerm :: string
  sortOption :: string
  subscription :: "string option"

definition initialState :: "string option \<Rightarrow> DashboardState" where
  "initialState u =
     \<lparr> user = u, company_st = '''', role_st = '''', status_st = ''applied'', notes_st = '''',
       internships = [], loadingList = True, saving = False, error = None,
       isEditing = False, editingId = None,
       statusFilter = ''all'', searchTerm = '''', sortOption = ''newest'',
       subscription = None \<rparr>"

text \<open>
  The calls to the database. A payload is the object literal the code passes: its keys
  in order, each with a string or the \<^verbatim>\<open>serverTimestamp()\<close> sentinel.
  \<open>AddDoc uid payload\<close> adds to \<^verbatim>\<open>users/uid/internships\<close>, \<open>UpdateDoc uid docId payload\<close>
  and \<open>DeleteDoc uid docId\<close> address \<^verbatim>\<open>users/uid/internships/docId\<close>.
\<close>

datatype FieldValue = StringValue string | ServerTimestamp | TimeValue int

type_synonym DocumentData = "(string \<times> FieldValue) list"

datatype dbCall =
    AddDoc string DocumentData
  | UpdateDoc string string DocumentData
  | DeleteDoc string string

definition resetForm :: "DashboardState \<Rightarrow> DashboardState" where
  "resetForm st =
     st\<lparr> company_st := '''', role_st := '''', status_st := ''applied'', notes_st := '''',
         isEditing := False, editingId := None \<rparr>"

text \<open>A string is truthy when it is neither null nor empty.\<close>

definition truthy :: "string option \<Rightarrow> bool" where
  "truthy v = (case v of None \<Rightarrow> False | Some s \<Rightarrow> s \<noteq> '''')"

text \<open>
  \<open>handleSubmit\<close> returns the state after the handler and the database calls it made, in
  order. \<open>dbOk\<close> is the database's answer: whether the awaited call resolves or rejects.
\<close>

definition handleSubmit :: "(dbCall \<Rightarrow> bool) \<Rightarrow> DashboardState \<Rightarrow> DashboardState \<times> dbCall list" where
  "handleSubmit dbOk st0 =
     (let st = st0\<lparr>error := None\<rparr>
      in if trim (company_st st) = '''' \<or> trim (role_st st) = ''''
         then (st\<lparr>error := Some ''Please enter both company and role.''\<rparr>, [])
         else
           (case user st of
              None \<Rightarrow>
                (st\<lparr>error := Some ''You must be logged in to add or edit internships.''\<rparr>, [])
            | Some uid \<Rightarrow>
                (let st1 = st\<lparr>saving := True\<rparr>;
                     trimmedNotes = trim (notes_st st1);
                     call =
                       (if isEditing st1 \<and> truthy (editingId st1)
                        then UpdateDoc uid (the (editingId st1))
                               [(''company'', StringValue (trim (company_st st1))),
                                (''role'', StringValue (trim (role_st st1))),
                                (''status'', StringValue (status_st st1)),
                                (''notes'', StringValue trimmedNotes)]
                        else AddDoc uid
                               [(''company'', StringValue (trim (company_st st1))),
                                (''role'', StringValue (trim (role_st st1))),
                                (''status'', StringValue (status_st st1)),
                                (''notes'', StringValue trimmedNotes),
                                (''createdAt'', ServerTimestamp)])
                 in if dbOk call
                    then ((resetForm st1)\<lparr>saving := False\<rparr>, [call])
                    else (st1\<lparr>error := Some ''Failed to save internship. Please try again.'',
                              saving := False\<rparr>, [call]))))"

definition handleEdit :: "Internship \<Rightarrow> DashboardState \<Rightarrow> DashboardState" where
  "handleEdit item st =
     st\<lparr> company_st := company item, role_st := role item, status_st := status item,
         notes_st := nullish (item_notes item) '''',
         isEditing := True, editingId := Some (intern_id item) \<rparr>"

definition handleCancelEdit :: "DashboardState \<Rightarrow> DashboardState" where
  "handleCancelEdit st = resetForm st"

text \<open>\<open>confirmed\<close> is the answer of \<^verbatim>\<open>window.confirm\<close>, asked only of a signed-in user.\<close>

definition handleDelete ::
  "(dbCall \<Rightarrow> bool) \<Rightarrow> bool \<Rightarrow> string \<Rightarrow> DashboardState \<Rightarrow> DashboardState \<times> dbCall list" where
  "handleDelete dbOk confirmed docId st =
     (case user st of
        None \<Rightarrow> (st, [])
      | Some uid \<Rightarrow>
          if \<not> confirmed then (st, [])
          else
            (let call = DeleteDoc uid docId
             in if dbOk call then (st, [call])
                else (st\<lparr>error := Some ''Failed to delete internship. Please try again.''\<rparr>,
                      [call])))"

text \<open>
  The database's side of \<^verbatim>\<open>updateDoc\<close>, a partial field update: the fields of the
  payload are written over the stored document's, the other fields stay, and the call
  fails on a document that does not exist. A collection maps identifiers to documents.
\<close>

type_synonym StoredDoc = "string \<rightharpoonup> FieldValue"

definition writeFields :: "StoredDoc \<Rightarrow> DocumentData \<Rightarrow> StoredDoc" where
  "writeFields d payload = foldl (\<lambda>m kv. m(fst kv \<mapsto> snd kv)) d payload"

definition updateDoc ::
  "(string \<rightharpoonup> StoredDoc) \<Rightarrow> string \<Rightarrow> DocumentData \<Rightarrow> (string \<rightharpoonup> StoredDoc) option" where
  "updateDoc col docId payload =
     (case col docId of
        None \<Rightarrow> None
      | Some d \<Rightarrow> Some (col(docId \<mapsto> writeFields d payload)))"

section \<open>The subscription effect and the events of a session\<close>

text \<open>
  \<^verbatim>\<open>useEffect(..., [user])\<close>: when the user changes, the cleanup of the last run
  (\<^verbatim>\<open>unsub()\<close>, where it subscribed) runs, then the effect runs again.
\<close>

definition unsub :: "DashboardState \<Rightarrow> DashboardState" where
  "unsub st = st\<lparr>subscription := None\<rparr>"

definition subscriptionEffect :: "DashboardState \<Rightarrow> DashboardState" where
  "subscriptionEffect st =
     (case user st of
        None \<Rightarrow> st\<lparr>internships := [], loadingList := False\<rparr>
      | Some uid \<Rightarrow> st\<lparr>subscription := Some uid\<rparr>)"

definition userChanged :: "string option \<Rightarrow> DashboardState \<Rightarrow> DashboardState" where
  "userChanged u st =
     (if u = user st then st else subscriptionEffect (unsub (st\<lparr>user := u\<rparr>)))"

definition onSnapshotNext :: "DocSnap list \<Rightarrow> DashboardState \<Rightarrow> DashboardState" where
  "onSnapshotNext docs st = st\<lparr>internships := mapSnapshot docs, loadingList := False\<rparr>"

definition onSnapshotError :: "DashboardState \<Rightarrow> DashboardState" where
  "onSnapshotError st =
     st\<lparr>error := Some ''Failed to load internships. Check console for details.'',
        loadingList := False\<rparr>"

text \<open>
  What can happen to a mounted dashboard. The listener's callbacks run only while a
  listener is live; the other events are the user's.
\<close>

datatype event =
    AuthChanged "string option"
  | SnapshotNext "DocSnap list"
  | SnapshotError
  | FormTyped string string InternshipStatus string
  | Submitted bool
  | EditClicked Internship
  | CancelClicked
  | DeleteClicked string bool bool
  | FilterChosen string
  | SearchTyped string
  | SortChosen string

fun step :: "event \<Rightarrow> DashboardState \<Rightarrow> DashboardState" where
  "step (AuthChanged u) st = userChanged u st"
| "step (SnapshotNext docs) st =
     (if subscription st = None then st else onSnapshotNext docs st)"
| "step SnapshotError st = (if subscription st = None then st else onSnapshotError st)"
| "step (FormTyped c r s n) st =
     st\<lparr>company_st := c, role_st := r, status_st := s, notes_st := n\<rparr>"
| "step (Submitted ok) st = fst (handleSubmit (\<lambda>call. ok) st)"
| "step (EditClicked item) st = handleEdit item st"
| "step CancelClicked st = handleCancelEdit st"
| "step (DeleteClicked docId confirmed ok) st =
     fst (handleDelete (\<lambda>call. ok) confirmed docId st)"
| "step (FilterChosen f) st = st\<lparr>statusFilter := f\<rparr>"
| "step (SearchTyped s) st = st\<lparr>searchTerm := s\<rparr>"
| "step (SortChosen s) st = st\<lparr>sortOption := s\<rparr>"

text \<open>Mounting runs the effect once on the initial state; then the events, in order.\<close>

definition mount :: "string option \<Rightarrow> DashboardState" where
  "mount u = subscriptionEffect (initialState u)"

definition run :: "string option \<Rightarrow> event list \<Rightarrow> DashboardState" where
  "run u evs = foldl (\<lambda>st e. step e st) (mount u) evs"

section \<open>The page at run time\<close>

text \<open>
  The definitions so far read the page under its TypeScript types, with text in Latin-1.
  At run time nothing checks those types: a field of a cached record holds whatever the
  stored document held, a string is any sequence of UTF-16 code units, and two string
  methods are the host's. This section models the same code without the types. The
  names carry the suffix \<open>_rt\<close>.
\<close>

type_synonym jsString = "nat list"

text \<open>A string literal of the source, as code units.\<close>

definition str :: "string \<Rightarrow> jsString" where
  "str s = map of_char s"

text \<open>
  The values a field can hold, as far as modelled: the primitive values, which are an
  absent field (undefined), null, a boolean, a whole number (below \<open>10^21\<close> in size)
  and a string; and, in \<^verbatim>\<open>createdAt\<close> only, a Firestore \<^verbatim>\<open>Timestamp\<close> (by the value
  of \<^verbatim>\<open>toDate().getTime()\<close>). Fractions, arrays, maps and the other stored kinds
  are left out, and so is a timestamp in another field than \<^verbatim>\<open>createdAt\<close>.
\<close>

datatype jsValue =
    JUndefined
  | JNull
  | JBool bool
  | JNumber int
  | JString jsString

datatype createdValue =
    JPlain jsValue
  | JTimestamp int

datatype jsError = TypeError

text \<open>
  What the host provides and the model does not define:
  \<^verbatim>\<open>String.prototype.toLowerCase\<close> and \<^verbatim>\<open>String.prototype.localeCompare\<close>.
\<close>

record jsHost =
  host_toLowerCase :: "jsString \<Rightarrow> jsString"
  host_localeCompare :: "jsString \<Rightarrow> jsString \<Rightarrow> int"

text \<open>\<^verbatim>\<open>a ?? b\<close> and the truth value of a condition, on values.\<close>

definition nullishV :: "jsValue \<Rightarrow> jsValue \<Rightarrow> jsValue" where
  "nullishV a b = (if a = JUndefined \<or> a = JNull then b else a)"

definition nullishC :: "createdValue \<Rightarrow> createdValue \<Rightarrow> createdValue" where
  "nullishC a b = (if a = JPlain JUndefined \<or> a = JPlain JNull then b else a)"

fun truthyV :: "jsValue \<Rightarrow> bool" where
  "truthyV JUndefined = False"
| "truthyV JNull = False"
| "truthyV (JBool b) = b"
| "truthyV (JNumber n) = (n \<noteq> 0)"
| "truthyV (JString s) = (s \<noteq> [])"

fun truthyC :: "createdValue \<Rightarrow> bool" where
  "truthyC (JPlain v) = truthyV v"
| "truthyC (JTimestamp t) = True"

text \<open>
  The text a primitive value contributes to a concatenation with a string
  (\<^verbatim>\<open>ToString\<close>): a string itself, the names of undefined, null, true and false, and
  the decimal digits of a whole number.
\<close>

fun digitsOf :: "nat \<Rightarrow> jsString" where
  "digitsOf n = (if n < 10 then [48 + n] else digitsOf (n div 10) @ [48 + n mod 10])"

fun toText :: "jsValue \<Rightarrow> jsString" where
  "toText JUndefined = str ''undefined''"
| "toText JNull = str ''null''"
| "toText (JBool b) = (if b then str ''true'' else str ''false'')"
| "toText (JNumber n) = (if n < 0 then 45 # digitsOf (nat (- n)) else digitsOf (nat n))"
| "toText (JString s) = s"

text \<open>
  \<^verbatim>\<open>String.prototype.trim\<close> removes the white space and line terminators of the
  language from both ends; each of them is one code unit.
\<close>

definition isWhiteSpaceUnit :: "nat \<Rightarrow> bool" where
  "isWhiteSpaceUnit c =
     (c \<in> {9, 10, 11, 12, 13, 32, 160, 5760, 8232, 8233, 8239, 8287, 12288, 65279} \<or>
      (8192 \<le> c \<and> c \<le> 8202))"

definition trim_rt :: "jsString \<Rightarrow> jsString" where
  "trim_rt s = rev (dropWhile isWhiteSpaceUnit (rev (dropWhile isWhiteSpaceUnit s)))"

subsection \<open>Snapshots and cached records\<close>

record DocSnap_rt =
  snap_id :: jsString
  stored_company :: jsValue
  stored_role :: jsValue
  stored_status :: jsValue
  stored_notes :: jsValue
  stored_createdAt :: createdValue

record Internship_rt =
  id_rt :: jsString
  company_rt :: jsValue
  role_rt :: jsValue
  status_rt :: jsValue
  notes_rt :: jsValue
  createdAt_rt :: createdValue

definition mapDoc_rt :: "DocSnap_rt \<Rightarrow> Internship_rt" where
  "mapDoc_rt docSnap =
     \<lparr> id_rt = snap_id docSnap,
       company_rt = nullishV (stored_company docSnap) (JString (str '''')),
       role_rt = nullishV (stored_role docSnap) (JString (str '''')),
       status_rt = nullishV (stored_status docSnap) (JString (str ''applied'')),
       notes_rt = nullishV (stored_notes docSnap) (JString (str '''')),
       createdAt_rt = nullishC (stored_createdAt docSnap) (JPlain JNull) \<rparr>"

definition mapSnapshot_rt :: "DocSnap_rt list \<Rightarrow> Internship_rt list" where
  "mapSnapshot_rt docs = map mapDoc_rt docs"

text \<open>A record as \<^verbatim>\<open>Internship\<close> declares it.\<close>

definition wellTyped :: "Internship_rt \<Rightarrow> bool" where
  "wellTyped x =
     ((case company_rt x of JString s \<Rightarrow> True | _ \<Rightarrow> False) \<and>
      (case role_rt x of JString s \<Rightarrow> True | _ \<Rightarrow> False) \<and>
      (case status_rt x of JString s \<Rightarrow> s \<in> set (map (str \<circ> fst) STATUS_OPTIONS) | _ \<Rightarrow> False) \<and>
      (case notes_rt x of JString s \<Rightarrow> True | JUndefined \<Rightarrow> True | _ \<Rightarrow> False) \<and>
      (case createdAt_rt x of JTimestamp t \<Rightarrow> True | JPlain JNull \<Rightarrow> True
         | JPlain JUndefined \<Rightarrow> True | _ \<Rightarrow> False))"

subsection \<open>Counts, filter and search\<close>

definition statusCounts_rt :: "Internship_rt list \<Rightarrow> (jsString \<rightharpoonup> nat)" where
  "statusCounts_rt cached =
     foldl
       (\<lambda>acc opt.
          acc(str (fst opt) \<mapsto> length (filter (\<lambda>i. status_rt i = JString (str (fst opt))) cached)))
       Map.empty STATUS_OPTIONS"

text \<open>
  \<^verbatim>\<open>item.company + " " + item.role + " " + (item.notes ?? "")\<close>, and its lower-cased
  form, the haystack.
\<close>

definition searchText :: "Internship_rt \<Rightarrow> jsString" where
  "searchText item =
     toText (company_rt item) @ str '' '' @ toText (role_rt item) @ str '' '' @
     toText (nullishV (notes_rt item) (JString (str '''')))"

definition haystack_rt :: "jsHost \<Rightarrow> Internship_rt \<Rightarrow> jsString" where
  "haystack_rt host item = host_toLowerCase host (searchText item)"

definition normalizedSearch_rt :: "jsHost \<Rightarrow> jsString \<Rightarrow> jsString" where
  "normalizedSearch_rt host search = host_toLowerCase host (trim_rt search)"

definition matchesStatus_rt :: "jsString \<Rightarrow> Internship_rt \<Rightarrow> bool" where
  "matchesStatus_rt filterChoice item =
     (filterChoice = str ''all'' \<or> status_rt item = JString filterChoice)"

definition matchesSearch_rt :: "jsHost \<Rightarrow> jsString \<Rightarrow> Internship_rt \<Rightarrow> bool" where
  "matchesSearch_rt host search item =
     (normalizedSearch_rt host search = str '''' \<or>
      str_includes (haystack_rt host item) (normalizedSearch_rt host search))"

definition filteredInternships_rt ::
  "jsHost \<Rightarrow> jsString \<Rightarrow> jsString \<Rightarrow> Internship_rt list \<Rightarrow> Internship_rt list" where
  "filteredInternships_rt host filterChoice search cached =
     filter (\<lambda>item. matchesStatus_rt filterChoice item \<and> matchesSearch_rt host search item)
       cached"

text \<open>
  The search predicate in the words of the specification: the needle is a
  case-insensitive substring of the text when some segment of the text equals it up to
  case, that is, has the same lower-cased form.
\<close>

definition spec_ci_substring :: "jsHost \<Rightarrow> jsString \<Rightarrow> jsString \<Rightarrow> bool" where
  "spec_ci_substring host needle txt =
     (\<exists>ps m ss. txt = ps @ m @ ss \<and> host_toLowerCase host m = host_toLowerCase host needle)"

subsection \<open>Sorting with a comparator that can throw\<close>

text \<open>
  \<^verbatim>\<open>getTime\<close>: a falsy \<^verbatim>\<open>createdAt\<close> gives 0; on a truthy one the operator
  \<^verbatim>\<open>in\<close> is evaluated, which throws a TypeError when its right operand is a
  primitive value. A timestamp has \<^verbatim>\<open>toDate\<close>.
\<close>

definition getTime_rt :: "Internship_rt \<Rightarrow> jsError + int" where
  "getTime_rt x =
     (if truthyC (createdAt_rt x)
      then (case createdAt_rt x of JTimestamp t \<Rightarrow> Inr t | JPlain v \<Rightarrow> Inl TypeError)
      else Inr 0)"

text \<open>\<^verbatim>\<open>x.company.toLowerCase()\<close>: only a string has the method.\<close>

definition companyLower :: "jsHost \<Rightarrow> Internship_rt \<Rightarrow> jsError + jsString" where
  "companyLower host x =
     (case company_rt x of JString s \<Rightarrow> Inr (host_toLowerCase host s) | _ \<Rightarrow> Inl TypeError)"

definition compare_rt ::
  "jsHost \<Rightarrow> jsString \<Rightarrow> Internship_rt \<Rightarrow> Internship_rt \<Rightarrow> jsError + int" where
  "compare_rt host sortChoice a b =
     (if sortChoice = str ''newest''
      then (case getTime_rt b of
              Inl e \<Rightarrow> Inl e
            | Inr tb \<Rightarrow> (case getTime_rt a of Inl e \<Rightarrow> Inl e | Inr ta \<Rightarrow> Inr (tb - ta)))
      else if sortChoice = str ''oldest''
      then (case getTime_rt a of
              Inl e \<Rightarrow> Inl e
            | Inr ta \<Rightarrow> (case getTime_rt b of Inl e \<Rightarrow> Inl e | Inr tb \<Rightarrow> Inr (ta - tb)))
      else
        (case companyLower host a of
           Inl e \<Rightarrow> Inl e
         | Inr aCompany \<Rightarrow>
             (case companyLower host b of
                Inl e \<Rightarrow> Inl e
              | Inr bCompany \<Rightarrow>
                  if sortChoice = str ''company-az''
                  then Inr (host_localeCompare host aCompany bCompany)
                  else if sortChoice = str ''company-za''
                  then Inr (host_localeCompare host bCompany aCompany)
                  else Inr 0)))"

text \<open>
  \<^verbatim>\<open>Array.prototype.sort\<close> with such a comparator: an exception of the comparator
  leaves the sort. Which pairs are compared is the engine's choice; here it is the
  insertion of \<open>insert_sorted\<close>. An array of fewer than two elements is never compared.
\<close>

fun insert_rt :: "('a \<Rightarrow> 'a \<Rightarrow> jsError + int) \<Rightarrow> 'a \<Rightarrow> 'a list \<Rightarrow> jsError + 'a list" where
  "insert_rt cmp x [] = Inr [x]"
| "insert_rt cmp x (y # ys) =
     (case cmp x y of
        Inl e \<Rightarrow> Inl e
      | Inr c \<Rightarrow>
          if c \<le> 0 then Inr (x # y # ys)
          else (case insert_rt cmp x ys of Inl e \<Rightarrow> Inl e | Inr r \<Rightarrow> Inr (y # r)))"

fun sort_rt :: "('a \<Rightarrow> 'a \<Rightarrow> jsError + int) \<Rightarrow> 'a list \<Rightarrow> jsError + 'a list" where
  "sort_rt cmp [] = Inr []"
| "sort_rt cmp (x # xs) =
     (case sort_rt cmp xs of Inl e \<Rightarrow> Inl e | Inr s \<Rightarrow> insert_rt cmp x s)"

definition sortedInternships_rt ::
  "jsHost \<Rightarrow> jsString \<Rightarrow> Internship_rt list \<Rightarrow> jsError + Internship_rt list" where
  "sortedInternships_rt host sortChoice filtered = sort_rt (compare_rt host sortChoice) filtered"


subsection \<open>One render, over arrays in a heap\<close>







subsection \<open>A host to evaluate with\<close>

text \<open>
  The lower-casing of Unicode on the code units below 256 and the Greek letters
  U+0391 to U+03CB: a capital letter goes to the letter 32 later, but a capital sigma
  goes to the final form U+03C2 when a cased letter comes before it and none after it
  (marks that case ignores skipped on both sides), as \<^verbatim>\<open>toLowerCase\<close> does. Other
  code units are left as they are, which is not claimed of the host.
\<close>

definition lowerUnit :: "nat \<Rightarrow> nat" where
  "lowerUnit c =
     (if (65 \<le> c \<and> c \<le> 90) \<or> (192 \<le> c \<and> c \<le> 222 \<and> c \<noteq> 215) \<or>
         (913 \<le> c \<and> c \<le> 939 \<and> c \<noteq> 930)
      then c + 32 else c)"

definition isCasedUnit :: "nat \<Rightarrow> bool" where
  "isCasedUnit c =
     ((65 \<le> c \<and> c \<le> 90) \<or> (97 \<le> c \<and> c \<le> 122) \<or> c \<in> {170, 181, 186} \<or>
      (192 \<le> c \<and> c \<le> 255 \<and> c \<noteq> 215 \<and> c \<noteq> 247) \<or>
      (913 \<le> c \<and> c \<le> 939 \<and> c \<noteq> 930) \<or> (945 \<le> c \<and> c \<le> 971))"

definition isCaseIgnorableUnit :: "nat \<Rightarrow> bool" where
  "isCaseIgnorableUnit c = (c \<in> {39, 46, 58, 94, 96, 168, 173, 175, 180, 183, 184})"

definition nextIsCased :: "jsString \<Rightarrow> bool" where
  "nextIsCased s =
     (case dropWhile isCaseIgnorableUnit s of [] \<Rightarrow> False | c # cs \<Rightarrow> isCasedUnit c)"

text \<open>
  \<open>lowerFrom before s\<close>: the lower-cased \<open>s\<close>, \<open>before\<close> being what precedes it, last
  unit first.
\<close>

fun lowerFrom :: "jsString \<Rightarrow> jsString \<Rightarrow> jsString" where
  "lowerFrom before [] = []"
| "lowerFrom before (c # cs) =
     (if c = 931 then (if nextIsCased before \<and> \<not> nextIsCased cs then 962 else 963)
      else lowerUnit c) # lowerFrom (c # before) cs"

definition unicodeLowerCase :: "jsString \<Rightarrow> jsString" where
  "unicodeLowerCase s = lowerFrom [] s"

text \<open>The comparison by code units, and the host made of the two.\<close>

fun ordinalCompare :: "jsString \<Rightarrow> jsString \<Rightarrow> int" where
  "ordinalCompare [] [] = 0"
| "ordinalCompare [] (y # ys) = - 1"
| "ordinalCompare (x # xs) [] = 1"
| "ordinalCompare (x # xs) (y # ys) =
     (if x < y then - 1 else if y < x then 1 else ordinalCompare xs ys)"

definition sampleHost :: jsHost where
  "sampleHost = \<lparr> host_toLowerCase = unicodeLowerCase, host_localeCompare = ordinalCompare \<rparr>"

subsection \<open>Records and documents to evaluate with\<close>


definition zen_rt :: Internship_rt where
  "zen_rt = \<lparr> id_rt = str ''2'', company_rt = JString (str ''Zen''),
       role_rt = JString (str ''Engineer''), status_rt = JString (str ''offer''),
       notes_rt = JString (str ''remote''), createdAt_rt = JTimestamp 1700000600000 \<rparr>"

definition odosa_rt :: Internship_rt where
  "odosa_rt = \<lparr> id_rt = str ''6'', company_rt = JString [927, 916, 927, 931, 913],
       role_rt = JString (str ''Intern''), status_rt = JString (str ''applied''),
       notes_rt = JString (str ''''), createdAt_rt = JTimestamp 1700001200000 \<rparr>"




subsection \<open>The typed reading inside the run-time model\<close>

text \<open>
  A record, a stored document and a \<^verbatim>\<open>localeCompare\<close> of the typed definitions, as
  the run-time definitions see them.
\<close>

definition toRt :: "Internship \<Rightarrow> Internship_rt" where
  "toRt x =
     \<lparr> id_rt = str (intern_id x),
       company_rt = JString (str (company x)),
       role_rt = JString (str (role x)),
       status_rt = JString (str (status x)),
       notes_rt = (case item_notes x of None \<Rightarrow> JUndefined | Some n \<Rightarrow> JString (str n)),
       createdAt_rt = (case createdAt x of None \<Rightarrow> JPlain JNull | Some t \<Rightarrow> JTimestamp t) \<rparr>"

definition docToRt :: "DocSnap \<Rightarrow> DocSnap_rt" where
  "docToRt d =
     \<lparr> snap_id = str (doc_id d),
       stored_company = (case data_company d of None \<Rightarrow> JUndefined | Some s \<Rightarrow> JString (str s)),
       stored_role = (case data_role d of None \<Rightarrow> JUndefined | Some s \<Rightarrow> JString (str s)),
       stored_status = (case data_status d of None \<Rightarrow> JUndefined | Some s \<Rightarrow> JString (str s)),
       stored_notes = (case data_notes d of None \<Rightarrow> JUndefined | Some s \<Rightarrow> JString (str s)),
       stored_createdAt =
         (case data_createdAt d of None \<Rightarrow> JPlain JUndefined | Some t \<Rightarrow> JTimestamp t) \<rparr>"

definition latinHost :: "(string \<Rightarrow> string \<Rightarrow> int) \<Rightarrow> jsHost" where
  "latinHost localeCompare =
     \<lparr> host_toLowerCase = unicodeLowerCase,
       host_localeCompare = (\<lambda>a b. localeCompare (map char_of a) (map char_of b)) \<rparr>"

section \<open>The scenario of the specification\<close>

text \<open>
  The two records of the specification's scenarios, a record whose write the server has
  not acknowledged yet, a record dated the last day of 1969, and a stored document whose
  status is none of the five.
\<close>

definition acme :: Internship where
  "acme = \<lparr> intern_id = ''1'', company = ''Acme'', role = ''Intern'', status = ''applied'',
            item_notes = Some '''', createdAt = Some 1700000000000 \<rparr>"

definition zen :: Internship where
  "zen = \<lparr> intern_id = ''2'', company = ''Zen'', role = ''Engineer'', status = ''offer'',
           item_notes = Some ''remote'', createdAt = Some 1700000600000 \<rparr>"

definition pendingRecord :: Internship where
  "pendingRecord = \<lparr> intern_id = ''3'', company = ''Moon'', role = ''Analyst'',
           status = ''interview'', item_notes = Some '''', createdAt = None \<rparr>"

definition oldRecord :: Internship where
  "oldRecord = \<lparr> intern_id = ''4'', company = ''Bell'', role = ''Operator'',
           status = ''rejected'', item_notes = None, createdAt = Some (- 86400000) \<rparr>"

definition archivedDoc :: DocSnap where
  "archivedDoc = \<lparr> doc_id = ''5'', data_company = Some ''Orbit'', data_role = Some ''Intern'',
           data_status = Some ''archived'', data_notes = None,
           data_createdAt = Some 1700000900000 \<rparr>"

section \<open>The invariant of the cache\<close>

text \<open>
  What every state of a session satisfies: the live listener is the signed-in user's,
  and with no user signed in the cache is empty.
\<close>

definition cache_guarded :: "DashboardState \<Rightarrow> bool" where
  "cache_guarded st =
     (subscription st = user st \<and> (user st = None \<longrightarrow> internships st = []))"

section \<open>Inbound snapshots: the status of a mapped record\<close>

text \<open>
  C1, as the code has it. The mapping defaults the status with \<^verbatim>\<open>??\<close> only: a
  missing (absent or null) stored status becomes \<open>applied\<close>, every other stored status
  is kept as it is, recognised or not. So the mapped status is one of the five exactly
  when the stored status is missing or one of the five.
\<close>

theorem mapSnapshot_status:
  "map status (mapSnapshot docs) =
     map (\<lambda>d. case data_status d of None \<Rightarrow> ''applied'' | Some s \<Rightarrow> s) docs \<and>
   map (\<lambda>i. isInternshipStatus (status i)) (mapSnapshot docs) =
     map (\<lambda>d. case data_status d of None \<Rightarrow> True | Some s \<Rightarrow> isInternshipStatus s) docs"
  by (auto simp add: mapSnapshot_def mapDoc_def nullish_def isInternshipStatus_def
        STATUS_OPTIONS_def split: option.splits)

text \<open>
  A stored status outside the five is not given \<open>applied\<close>: the document with the status
  \<open>archived\<close> is mapped to a record with the status \<open>archived\<close>.
\<close>

theorem mapSnapshot_status_counterexample:
  "data_status archivedDoc = Some ''archived'' \<and>
   \<not> isInternshipStatus ''archived'' \<and>
   map status (mapSnapshot [archivedDoc]) = [''archived''] \<and>
   map status (mapSnapshot [archivedDoc]) \<noteq> [''applied'']"
  by (simp add: mapSnapshot_def mapDoc_def nullish_def archivedDoc_def isInternshipStatus_def
        STATUS_OPTIONS_def)

section \<open>Status counts\<close>

lemma statusCounts_apply:
  "statusCounts R =
     [''applied'' \<mapsto> length (filter (\<lambda>i. status i = ''applied'') R),
      ''online_assessment'' \<mapsto> length (filter (\<lambda>i. status i = ''online_assessment'') R),
      ''interview'' \<mapsto> length (filter (\<lambda>i. status i = ''interview'') R),
      ''offer'' \<mapsto> length (filter (\<lambda>i. status i = ''offer'') R),
      ''rejected'' \<mapsto> length (filter (\<lambda>i. status i = ''rejected'') R)]"
  by (simp add: statusCounts_def STATUS_OPTIONS_def)

lemma chipCount_member:
  "isInternshipStatus k \<Longrightarrow>
   chipCount (statusCounts R) k = length (filter (\<lambda>i. status i = k) R)"
  by (auto simp add: statusCounts_apply chipCount_def nullish_def isInternshipStatus_def
        STATUS_OPTIONS_def)

lemma chip_sum:
  "sum_list (map (\<lambda>opt. chipCount (statusCounts R) (fst opt)) STATUS_OPTIONS) =
   length (filter (\<lambda>i. isInternshipStatus (status i)) R)"
proof -
  have m: "\<And>k. k \<in> set (map fst STATUS_OPTIONS) \<Longrightarrow>
      chipCount (statusCounts R) k = length (filter (\<lambda>i. status i = k) R)"
    using chipCount_member by (simp add: isInternshipStatus_def)
  have "sum_list (map (\<lambda>opt. chipCount (statusCounts R) (fst opt)) STATUS_OPTIONS) =
        sum_list (map (\<lambda>opt. length (filter (\<lambda>i. status i = fst opt) R)) STATUS_OPTIONS)"
    by (rule arg_cong[where f=sum_list], rule map_cong) (force intro: m)+
  also have "\<dots> = length (filter (\<lambda>i. isInternshipStatus (status i)) R)"
    by (induction R) (auto simp add: isInternshipStatus_def STATUS_OPTIONS_def)
  finally show ?thesis .
qed

text \<open>
  C2, as the code has it. The counts of a render depend on the cached set alone: they are
  the same under every filter, search string and sort option. The count shown on the
  chip \<open>All\<close> is the number of cached records. The five counts sum to the number of
  cached records whose status is one of the five; that is the total when every cached
  status is one of the five.
\<close>

theorem statusCounts_sum:
  "view_counts (deriveView lc R f s so) = view_counts (deriveView lc' R f' s' so') \<and>
   view_counts (deriveView lc R f s so) = statusCounts R \<and>
   view_total (deriveView lc R f s so) = length R \<and>
   sum_list (map (\<lambda>opt. chipCount (statusCounts R) (fst opt)) STATUS_OPTIONS) =
     length (filter (\<lambda>i. isInternshipStatus (status i)) R) \<and>
   ((\<forall>i\<in>set R. isInternshipStatus (status i)) \<longrightarrow>
      sum_list (map (\<lambda>opt. chipCount (statusCounts R) (fst opt)) STATUS_OPTIONS) =
        totalCount R)"
  by (simp add: deriveView_def totalCount_def chip_sum)

theorem statusCounts_sum_witness:
  "sum_list (map (\<lambda>opt. chipCount (statusCounts [zen, acme]) (fst opt)) STATUS_OPTIONS) =
     totalCount [zen, acme] \<and>
   totalCount [zen, acme] = 2 \<and>
   chipCount (statusCounts [zen, acme]) ''applied'' = 1 \<and>
   chipCount (statusCounts [zen, acme]) ''offer'' = 1"
proof -
  have h: "\<forall>i\<in>set [zen, acme]. isInternshipStatus (status i)"
    by (simp add: zen_def acme_def isInternshipStatus_def STATUS_OPTIONS_def)
  have c: "chipCount (statusCounts [zen, acme]) ''applied'' = 1"
          "chipCount (statusCounts [zen, acme]) ''offer'' = 1"
    by (simp_all add: statusCounts_apply chipCount_def nullish_def zen_def acme_def)
  from statusCounts_sum[of codeUnitCompare "[zen, acme]" "''all''" "''''" "''newest''"] h c
  show ?thesis by (simp add: totalCount_def)
qed

text \<open>
  The five counts do not always sum to the total: after the snapshot with the
  \<open>archived\<close> document the cache holds one record and every count is zero.
\<close>

theorem statusCounts_sum_counterexample:
  "totalCount (mapSnapshot [archivedDoc]) = 1 \<and>
   sum_list (map (\<lambda>opt. chipCount (statusCounts (mapSnapshot [archivedDoc])) (fst opt))
     STATUS_OPTIONS) = 0"
proof -
  have "length (filter (\<lambda>i. isInternshipStatus (status i)) (mapSnapshot [archivedDoc])) = 0"
    by (simp add: mapSnapshot_def mapDoc_def nullish_def archivedDoc_def isInternshipStatus_def
          STATUS_OPTIONS_def)
  moreover have "totalCount (mapSnapshot [archivedDoc]) = 1"
    by (simp add: totalCount_def mapSnapshot_def)
  ultimately show ?thesis by (simp only: chip_sum)
qed

section \<open>The search predicate\<close>

lemma str_includes_iff: "str_includes h n \<longleftrightarrow> (\<exists>ps ss. h = ps @ n @ ss)"
proof (induction h)
  case Nil
  then show ?case by auto
next
  case (Cons c cs)
  show ?case
  proof
    assume "str_includes (c # cs) n"
    then consider "prefix n (c # cs)" | "str_includes cs n" by auto
    then show "\<exists>ps ss. c # cs = ps @ n @ ss"
    proof cases
      case 1
      then obtain ss where "c # cs = n @ ss" by (auto simp: prefix_def)
      then have "c # cs = [] @ n @ ss" by simp
      then show ?thesis by blast
    next
      case 2
      with Cons.IH obtain ps ss where "cs = ps @ n @ ss" by blast
      then have "c # cs = (c # ps) @ n @ ss" by simp
      then show ?thesis by blast
    qed
  next
    assume "\<exists>ps ss. c # cs = ps @ n @ ss"
    then obtain ps ss where e: "c # cs = ps @ n @ ss" by blast
    show "str_includes (c # cs) n"
    proof (cases ps)
      case Nil
      with e have "prefix n (c # cs)" by (simp add: prefix_def)
      then show ?thesis by simp
    next
      case (Cons p ps')
      with e have "cs = ps' @ n @ ss" by simp
      with Cons.IH have "str_includes cs n" by blast
      then show ?thesis by simp
    qed
  qed
qed

lemma map_segment:
  assumes "map f t = a @ b @ c"
  shows "\<exists>a' b' c'. t = a' @ b' @ c' \<and> map f b' = b"
proof -
  from assms obtain a' r where t: "t = a' @ r" and r: "b @ c = map f r"
    unfolding map_eq_append_conv by blast
  from r obtain b' c' where "r = b' @ c'" "map f b' = b"
    unfolding append_eq_map_conv by blast
  with t show ?thesis by blast
qed

lemma lowerFrom_plain: "\<forall>c\<in>set t. c \<noteq> 931 \<Longrightarrow> lowerFrom b t = map lowerUnit t"
  by (induction t arbitrary: b) simp_all

lemma unicodeLowerCase_latin1:
  "set t \<subseteq> {c. c < 256} \<Longrightarrow> unicodeLowerCase t = map lowerUnit t"
  unfolding unicodeLowerCase_def by (rule lowerFrom_plain) auto

lemma lowerUnit_latin1: "c < 256 \<Longrightarrow> lowerUnit c < 256 \<and> lowerUnit (lowerUnit c) = lowerUnit c"
  by (auto simp add: lowerUnit_def)

lemma set_str: "set (str x) \<subseteq> {c. c < 256}"
  by (auto simp add: str_def)

lemma set_trim_rt: "set (trim_rt s) \<subseteq> set s"
proof -
  have "set (trim_rt s) \<subseteq> set (rev (dropWhile isWhiteSpaceUnit s))"
    unfolding trim_rt_def using set_dropWhileD by fastforce
  also have "\<dots> \<subseteq> set s" using set_dropWhileD by fastforce
  finally show ?thesis .
qed

lemma searchText_strings:
  "company_rt item = JString c \<Longrightarrow> role_rt item = JString r \<Longrightarrow>
   searchText item =
     c @ [32] @ r @ [32] @
     (case notes_rt item of JUndefined \<Rightarrow> [] | JNull \<Rightarrow> [] | v \<Rightarrow> toText v)"
  by (simp add: searchText_def nullishV_def str_def split: jsValue.splits)

lemma letterwise_ci:
  assumes low: "\<forall>t. set t \<subseteq> D \<longrightarrow> host_toLowerCase host t = map f t"
    and f: "\<forall>c\<in>D. f c \<in> D \<and> f (f c) = f c"
    and s: "set s \<subseteq> D" and tD: "set txt \<subseteq> D"
  shows "str_includes (host_toLowerCase host txt) (normalizedSearch_rt host s) =
         spec_ci_substring host (normalizedSearch_rt host s) txt"
proof -
  let ?n = "normalizedSearch_rt host s"
  have ts: "set (trim_rt s) \<subseteq> D" using s set_trim_rt by blast
  then have n: "?n = map f (trim_rt s)" using low by (simp add: normalizedSearch_rt_def)
  then have nD: "set ?n \<subseteq> D" using f ts by auto
  have "map f ?n = ?n" unfolding n using f ts by auto
  then have ln: "host_toLowerCase host ?n = ?n" using low nD by simp
  have lt: "host_toLowerCase host txt = map f txt" using low tD by simp
  show ?thesis
  proof
    assume "str_includes (host_toLowerCase host txt) ?n"
    then obtain ps ss where "map f txt = ps @ ?n @ ss"
      unfolding lt str_includes_iff by blast
    then obtain ps' m ss' where d: "txt = ps' @ m @ ss'" and m: "map f m = ?n"
      using map_segment by metis
    from d tD have "set m \<subseteq> D" by auto
    then have "host_toLowerCase host m = ?n" using low m by simp
    with d ln show "spec_ci_substring host ?n txt"
      unfolding spec_ci_substring_def by metis
  next
    assume "spec_ci_substring host ?n txt"
    then obtain ps m ss where d: "txt = ps @ m @ ss"
      and m: "host_toLowerCase host m = host_toLowerCase host ?n"
      unfolding spec_ci_substring_def by blast
    from d tD have "set m \<subseteq> D" by auto
    then have "map f m = ?n" using low m ln by simp
    with d have "map f txt = map f ps @ ?n @ map f ss" by simp
    then show "str_includes (host_toLowerCase host txt) ?n"
      unfolding lt str_includes_iff by blast
  qed
qed

lemma sampleHost_lower_latin1:
  "\<forall>t. set t \<subseteq> {c. c < 256} \<longrightarrow> host_toLowerCase sampleHost t = map lowerUnit t"
  by (simp add: sampleHost_def unicodeLowerCase_latin1)

text \<open>
  C3, as the code has it. The search string is trimmed, then lower-cased by the host. A
  record passes the search predicate exactly when that normalized string is empty or
  occurs, as it is, in the lower-cased concatenation of company, one space, role, one
  space, notes; absent notes count as the empty string and the space before them stays.
  Where the host lower-cases letter by letter, as it does every string of Basic Latin
  and Latin-1 characters, this is the same as: the normalized string is empty or a
  case-insensitive substring of the concatenation.
\<close>

theorem matchesSearch_rt_iff:
  "normalizedSearch_rt host s = host_toLowerCase host (trim_rt s) \<and>
   (matchesSearch_rt host s item \<longleftrightarrow>
      (normalizedSearch_rt host s = [] \<or>
       (\<exists>ps ss. host_toLowerCase host (searchText item) =
          ps @ normalizedSearch_rt host s @ ss))) \<and>
   (\<forall>c r. company_rt item = JString c \<and> role_rt item = JString r \<longrightarrow>
      searchText item =
        c @ [32] @ r @ [32] @
        (case notes_rt item of JUndefined \<Rightarrow> [] | JNull \<Rightarrow> [] | v \<Rightarrow> toText v)) \<and>
   ((\<forall>t. set t \<subseteq> D \<longrightarrow> host_toLowerCase host t = map f t) \<and>
    (\<forall>c\<in>D. f c \<in> D \<and> f (f c) = f c) \<and>
    set s \<subseteq> D \<and> set (searchText item) \<subseteq> D \<longrightarrow>
      (matchesSearch_rt host s item \<longleftrightarrow>
         (normalizedSearch_rt host s = [] \<or>
          spec_ci_substring host (normalizedSearch_rt host s) (searchText item))))"
proof -
  have a: "normalizedSearch_rt host s = host_toLowerCase host (trim_rt s)"
    by (simp add: normalizedSearch_rt_def)
  have b: "matchesSearch_rt host s item \<longleftrightarrow>
      (normalizedSearch_rt host s = [] \<or>
       (\<exists>ps ss. host_toLowerCase host (searchText item) =
          ps @ normalizedSearch_rt host s @ ss))"
    by (simp add: matchesSearch_rt_def haystack_rt_def str_includes_iff str_def)
  have c: "\<forall>c r. company_rt item = JString c \<and> role_rt item = JString r \<longrightarrow>
      searchText item =
        c @ [32] @ r @ [32] @
        (case notes_rt item of JUndefined \<Rightarrow> [] | JNull \<Rightarrow> [] | v \<Rightarrow> toText v)"
    using searchText_strings by blast
  have d: "(\<forall>t. set t \<subseteq> D \<longrightarrow> host_toLowerCase host t = map f t) \<and>
    (\<forall>c\<in>D. f c \<in> D \<and> f (f c) = f c) \<and>
    set s \<subseteq> D \<and> set (searchText item) \<subseteq> D \<longrightarrow>
      (matchesSearch_rt host s item \<longleftrightarrow>
         (normalizedSearch_rt host s = [] \<or>
          spec_ci_substring host (normalizedSearch_rt host s) (searchText item)))"
  proof (intro impI, elim conjE)
    assume "\<forall>t. set t \<subseteq> D \<longrightarrow> host_toLowerCase host t = map f t"
      "\<forall>c\<in>D. f c \<in> D \<and> f (f c) = f c" "set s \<subseteq> D" "set (searchText item) \<subseteq> D"
    then have "str_includes (host_toLowerCase host (searchText item))
          (normalizedSearch_rt host s) =
        spec_ci_substring host (normalizedSearch_rt host s) (searchText item)"
      by (rule letterwise_ci)
    then show "matchesSearch_rt host s item \<longleftrightarrow>
         (normalizedSearch_rt host s = [] \<or>
          spec_ci_substring host (normalizedSearch_rt host s) (searchText item))"
      by (simp add: matchesSearch_rt_def haystack_rt_def str_def)
  qed
  from a b c d show ?thesis by blast
qed

theorem matchesSearch_rt_iff_witness:
  "normalizedSearch_rt sampleHost (str '' ZEN '') = str ''zen'' \<and>
        searchText zen_rt = str ''Zen Engineer remote'' \<and>
        matchesSearch_rt sampleHost (str '' ZEN '') zen_rt \<and>
        spec_ci_substring sampleHost (str ''zen'') (str ''Zen Engineer remote'')"
proof -
  let ?h = "sampleHost"
  have n: "normalizedSearch_rt ?h (str '' ZEN '') = str ''zen''"
    by (simp add: normalizedSearch_rt_def sampleHost_def unicodeLowerCase_def trim_rt_def
          isWhiteSpaceUnit_def lowerUnit_def str_def)
  have t: "searchText zen_rt = str ''Zen Engineer remote''"
    by (simp add: searchText_def zen_rt_def nullishV_def str_def)
  have l: "host_toLowerCase ?h (str ''Zen Engineer remote'') = str ''zen engineer remote''"
    using sampleHost_lower_latin1 set_str[of "''Zen Engineer remote''"]
    by (simp add: str_def lowerUnit_def)
  have m: "matchesSearch_rt ?h (str '' ZEN '') zen_rt"
    unfolding matchesSearch_rt_def haystack_rt_def n t l
    by (simp add: str_def)
  have f: "\<forall>c\<in>{c. c < 256}. lowerUnit c \<in> {c. c < 256} \<and> lowerUnit (lowerUnit c) = lowerUnit c"
    using lowerUnit_latin1 by simp
  have d: "set (str '' ZEN '') \<subseteq> {c. c < 256}" "set (searchText zen_rt) \<subseteq> {c. c < 256}"
    unfolding t by (rule set_str)+
  have z: "str ''zen'' \<noteq> []" by (simp add: str_def)
  from matchesSearch_rt_iff[of ?h "str '' ZEN ''" zen_rt "{c. c < 256}" lowerUnit]
    sampleHost_lower_latin1 f d m
  have "normalizedSearch_rt ?h (str '' ZEN '') = [] \<or>
     spec_ci_substring ?h (normalizedSearch_rt ?h (str '' ZEN '')) (searchText zen_rt)"
    by blast
  with n t z have "spec_ci_substring ?h (str ''zen'') (str ''Zen Engineer remote'')" by simp
  with n t m show "normalizedSearch_rt ?h (str '' ZEN '') = str ''zen'' \<and>
        searchText zen_rt = str ''Zen Engineer remote'' \<and>
        matchesSearch_rt ?h (str '' ZEN '') zen_rt \<and>
        spec_ci_substring ?h (str ''zen'') (str ''Zen Engineer remote'')" by simp
qed

text \<open>
  Beyond such strings the two differ, since \<^verbatim>\<open>toLowerCase\<close> looks at the
  neighbours of a capital sigma: the search string of the code units 927, 916, 927, 931
  is the beginning of the company of \<open>odosa_rt\<close>, so a case-insensitive substring of
  it, but lower-cased on its own it ends in the final sigma 962, the company's sigma
  becomes 963, and the record does not pass.
\<close>

theorem matchesSearch_rt_iff_counterexample:
  "company_rt odosa_rt = JString ([927, 916, 927, 931] @ [913]) \<and>
        normalizedSearch_rt sampleHost [927, 916, 927, 931] = [959, 948, 959, 962] \<and>
        haystack_rt sampleHost odosa_rt = [959, 948, 959, 963, 945] @ str '' intern '' \<and>
        spec_ci_substring sampleHost
          (normalizedSearch_rt sampleHost [927, 916, 927, 931])
          (searchText odosa_rt) \<and>
        \<not> matchesSearch_rt sampleHost [927, 916, 927, 931] odosa_rt"
proof -
  let ?h = "sampleHost"
  have c: "company_rt odosa_rt = JString ([927, 916, 927, 931] @ [913])"
    by (simp add: odosa_rt_def)
  have n: "normalizedSearch_rt ?h [927, 916, 927, 931] = [959, 948, 959, 962]"
    by (simp add: normalizedSearch_rt_def sampleHost_def unicodeLowerCase_def trim_rt_def
          isWhiteSpaceUnit_def lowerUnit_def nextIsCased_def isCasedUnit_def
          isCaseIgnorableUnit_def)
  have t: "searchText odosa_rt = [927, 916, 927, 931] @ 913 # str '' Intern ''"
    by (simp add: searchText_def odosa_rt_def nullishV_def str_def)
  have hs: "haystack_rt ?h odosa_rt = [959, 948, 959, 963, 945] @ str '' intern ''"
    unfolding haystack_rt_def t
    by (simp add: sampleHost_def unicodeLowerCase_def lowerUnit_def nextIsCased_def
          isCasedUnit_def isCaseIgnorableUnit_def str_def)
  have l: "host_toLowerCase ?h [927, 916, 927, 931] = [959, 948, 959, 962]"
          "host_toLowerCase ?h [959, 948, 959, 962] = [959, 948, 959, 962]"
    by (simp_all add: sampleHost_def unicodeLowerCase_def lowerUnit_def nextIsCased_def
          isCasedUnit_def isCaseIgnorableUnit_def)
  have sp: "spec_ci_substring ?h (normalizedSearch_rt ?h [927, 916, 927, 931])
          (searchText odosa_rt)"
    unfolding spec_ci_substring_def n t
    by (rule exI[of _ "[]"], rule exI[of _ "[927, 916, 927, 931]"],
        rule exI[of _ "913 # str '' Intern ''"]) (simp add: l)
  have m: "\<not> matchesSearch_rt ?h [927, 916, 927, 931] odosa_rt"
    unfolding matchesSearch_rt_def n hs by (simp add: str_def)
  from c n hs sp m show "company_rt odosa_rt = JString ([927, 916, 927, 931] @ [913]) \<and>
        normalizedSearch_rt ?h [927, 916, 927, 931] = [959, 948, 959, 962] \<and>
        haystack_rt ?h odosa_rt = [959, 948, 959, 963, 945] @ str '' intern '' \<and>
        spec_ci_substring ?h (normalizedSearch_rt ?h [927, 916, 927, 931])
          (searchText odosa_rt) \<and>
        \<not> matchesSearch_rt ?h [927, 916, 927, 931] odosa_rt" by blast
qed

section \<open>The filtered set\<close>

text \<open>
  C5. Under the filter \<open>all\<close> every cached record that passes the search is in the
  filtered set. Under another filter \<open>f\<close> every record of the filtered set has the
  status \<open>f\<close>. In both cases a record occurs in the filtered set as often as in the
  cached set when it passes both predicates and not at all otherwise, so nothing is
  dropped or duplicated: in a cached set without repetition, a record with the status
  \<open>f\<close> that passes the search occurs exactly once. The cached order is kept.
\<close>

theorem filteredInternships_sound_complete:
  "(f = ''all'' \<longrightarrow>
      (\<forall>x\<in>set R. matchesSearch s x \<longrightarrow> x \<in> set (filteredInternships f s R))) \<and>
   (f \<noteq> ''all'' \<longrightarrow> (\<forall>x\<in>set (filteredInternships f s R). status x = f)) \<and>
   (\<forall>x. count_list (filteredInternships f s R) x =
      (if (f = ''all'' \<or> status x = f) \<and> matchesSearch s x then count_list R x else 0)) \<and>
   (f \<noteq> ''all'' \<and> distinct R \<longrightarrow>
      (\<forall>x\<in>set R. status x = f \<and> matchesSearch s x \<longrightarrow>
         count_list (filteredInternships f s R) x = 1)) \<and>
   subseq (filteredInternships f s R) R"
proof -
  have c: "\<And>x. count_list (filteredInternships f s R) x =
      (if (f = ''all'' \<or> status x = f) \<and> matchesSearch s x then count_list R x else 0)"
    unfolding filteredInternships_def matchesStatus_def
    by (induction R) auto
  have d: "\<And>x. distinct R \<Longrightarrow> x \<in> set R \<Longrightarrow> count_list R x = 1"
    by (induction R) (auto simp: count_list_0_iff)
  show ?thesis
    using c d by (auto simp add: filteredInternships_def matchesStatus_def)
qed

theorem filteredInternships_sound_complete_witness:
  "''offer'' \<noteq> ''all'' \<and> distinct [zen, acme] \<and> zen \<in> set [zen, acme] \<and>
   status zen = ''offer'' \<and> matchesSearch '' ZEN '' zen \<and>
   count_list (filteredInternships ''offer'' '' ZEN '' [zen, acme]) zen = 1 \<and>
   filteredInternships ''offer'' '' ZEN '' [zen, acme] = [zen]"
proof -
  have m: "matchesSearch '' ZEN '' zen" by code_simp
  have d: "distinct [zen, acme]" by (simp add: zen_def acme_def)
  have st: "status zen = ''offer''" "status acme \<noteq> ''offer''" by (simp_all add: zen_def acme_def)
  have f: "filteredInternships ''offer'' '' ZEN '' [zen, acme] = [zen]"
    using m st by (simp add: filteredInternships_def matchesStatus_def)
  from filteredInternships_sound_complete[of "''offer''" "[zen, acme]" "'' ZEN ''"] m d st
  have "count_list (filteredInternships ''offer'' '' ZEN '' [zen, acme]) zen = 1" by simp
  with m d st f show ?thesis by simp
qed

section \<open>Sorting\<close>

lemma mset_insert_sorted: "mset (insert_sorted cmp x xs) = add_mset x (mset xs)"
  by (induction xs) auto

lemma mset_array_sort: "mset (array_sort cmp xs) = mset xs"
  unfolding array_sort_def by (induction xs) (auto simp: mset_insert_sorted)

lemma set_insert_sorted: "set (insert_sorted cmp x xs) = insert x (set xs)"
  by (induction xs) auto

lemma set_array_sort: "set (array_sort cmp xs) = set xs"
  using mset_array_sort by (metis set_mset_mset)

lemma array_sort_Cons: "array_sort cmp (x # xs) = insert_sorted cmp x (array_sort cmp xs)"
  by (simp add: array_sort_def)

lemma sorted_insert_sorted:
  assumes tot: "\<And>a b. 0 < cmp a b \<Longrightarrow> cmp b a \<le> 0"
    and trans: "\<And>a b c. cmp a b \<le> 0 \<Longrightarrow> cmp b c \<le> 0 \<Longrightarrow> cmp a c \<le> 0"
  shows "sorted_wrt (\<lambda>a b. cmp a b \<le> 0) xs \<Longrightarrow>
         sorted_wrt (\<lambda>a b. cmp a b \<le> 0) (insert_sorted cmp x xs)"
proof (induction xs)
  case Nil
  then show ?case by simp
next
  case (Cons y ys)
  show ?case
  proof (cases "cmp x y \<le> 0")
    case True
    with Cons.prems trans show ?thesis by auto
  next
    case False
    then have "cmp y x \<le> 0" using tot by simp
    with False Cons show ?thesis by (auto simp: set_insert_sorted)
  qed
qed

lemma sorted_array_sort:
  assumes tot: "\<And>a b. 0 < cmp a b \<Longrightarrow> cmp b a \<le> 0"
    and trans: "\<And>a b c. cmp a b \<le> 0 \<Longrightarrow> cmp b c \<le> 0 \<Longrightarrow> cmp a c \<le> 0"
  shows "sorted_wrt (\<lambda>a b. cmp a b \<le> 0) (array_sort cmp xs)"
  unfolding array_sort_def
  by (induction xs) (auto intro: sorted_insert_sorted[OF tot trans])

lemma mset_sortedInternships: "mset (sortedInternships lc so R) = mset R"
  by (simp add: sortedInternships_def mset_array_sort)

subsection \<open>By creation time\<close>

lemma sorted_newest:
  "sorted_wrt (\<lambda>a b. getTime b \<le> getTime a) (sortedInternships lc ''newest'' R)"
proof -
  have "sorted_wrt (\<lambda>a b. compareInternships lc ''newest'' a b \<le> 0)
          (array_sort (compareInternships lc ''newest'') R)"
    by (rule sorted_array_sort) (auto simp: compareInternships_def)
  then show ?thesis
    by (simp add: sortedInternships_def compareInternships_def)
qed

lemma sorted_oldest:
  "sorted_wrt (\<lambda>a b. getTime a \<le> getTime b) (sortedInternships lc ''oldest'' R)"
proof -
  have "sorted_wrt (\<lambda>a b. compareInternships lc ''oldest'' a b \<le> 0)
          (array_sort (compareInternships lc ''oldest'') R)"
    by (rule sorted_array_sort) (auto simp: compareInternships_def)
  then show ?thesis
    by (simp add: sortedInternships_def compareInternships_def)
qed

text \<open>Where an element lands when a tail of the list does not compare smaller.\<close>

lemma insert_sorted_before_tail:
  "\<forall>p\<in>set P. cmp x p \<le> 0 \<Longrightarrow> insert_sorted cmp x (A @ P) = insert_sorted cmp x A @ P"
proof (induction A)
  case Nil
  then show ?case by (cases P) simp_all
next
  case (Cons a A)
  then show ?case by simp
qed

lemma insert_sorted_after_greater:
  "\<forall>a\<in>set A. 0 < cmp x a \<Longrightarrow> \<forall>p\<in>set P. cmp x p \<le> 0 \<Longrightarrow>
   insert_sorted cmp x (A @ P) = A @ x # P"
proof (induction A)
  case Nil
  then show ?case by (cases P) simp_all
next
  case (Cons a A)
  then show ?case by simp
qed

lemma newest_pending_last:
  assumes "\<forall>x\<in>set R. createdAt x \<noteq> None \<longrightarrow> 0 < getTime x"
  shows "sortedInternships lc ''newest'' R =
         sortedInternships lc ''newest'' (filter (\<lambda>x. createdAt x \<noteq> None) R) @
         filter (\<lambda>x. createdAt x = None) R"
  using assms
proof (induction R)
  case Nil
  then show ?case by (simp add: sortedInternships_def array_sort_def)
next
  case (Cons x R)
  let ?cmp = "compareInternships lc ''newest''"
  let ?A = "array_sort ?cmp (filter (\<lambda>x. createdAt x \<noteq> None) R)"
  let ?P = "filter (\<lambda>x. createdAt x = None) R"
  from Cons have IH: "array_sort ?cmp R = ?A @ ?P"
    by (simp add: sortedInternships_def)
  have P0: "\<forall>p\<in>set ?P. getTime p = 0" by (simp add: getTime_def)
  have Apos: "\<forall>a\<in>set ?A. 0 < getTime a"
    using Cons.prems by (simp add: set_array_sort)
  show ?case
  proof (cases "createdAt x")
    case None
    then have x0: "getTime x = 0" by (simp add: getTime_def)
    have "insert_sorted ?cmp x (?A @ ?P) = ?A @ x # ?P"
      by (rule insert_sorted_after_greater)
         (use Apos P0 x0 in \<open>simp_all add: compareInternships_def\<close>)
    with IH None show ?thesis
      by (simp add: sortedInternships_def array_sort_Cons)
  next
    case (Some t)
    with Cons.prems have xpos: "0 < getTime x" by simp
    have "insert_sorted ?cmp x (?A @ ?P) = insert_sorted ?cmp x ?A @ ?P"
      by (rule insert_sorted_before_tail)
         (use P0 xpos in \<open>simp add: compareInternships_def\<close>)
    with IH Some show ?thesis
      by (simp add: sortedInternships_def array_sort_Cons)
  qed
qed

text \<open>
  C4, as the code has it. The output of \<open>newest\<close> is a reordering of the filtered set
  in descending order of creation time, that of \<open>oldest\<close> in ascending order, where a
  record with no resolved creation time counts as time zero. So in the output of
  \<open>newest\<close> such a record comes after every record whose resolved time is later than
  the epoch (time above zero); when every resolved time of the set is later than the
  epoch, the output is the resolved records in descending order followed by the
  unresolved ones.
\<close>

theorem sortedInternships_time_order:
  "sorted_wrt (\<lambda>a b. getTime b \<le> getTime a) (sortedInternships lc ''newest'' R) \<and>
   sorted_wrt (\<lambda>a b. getTime a \<le> getTime b) (sortedInternships lc ''oldest'' R) \<and>
   mset (sortedInternships lc ''newest'' R) = mset R \<and>
   mset (sortedInternships lc ''oldest'' R) = mset R \<and>
   (\<forall>x. createdAt x = None \<longrightarrow> getTime x = 0) \<and>
   (\<forall>i j. i < length (sortedInternships lc ''newest'' R) \<and>
          j < length (sortedInternships lc ''newest'' R) \<and>
          createdAt (sortedInternships lc ''newest'' R ! i) = None \<and>
          0 < getTime (sortedInternships lc ''newest'' R ! j) \<longrightarrow> j < i) \<and>
   ((\<forall>x\<in>set R. createdAt x \<noteq> None \<longrightarrow> 0 < getTime x) \<longrightarrow>
      sortedInternships lc ''newest'' R =
        sortedInternships lc ''newest'' (filter (\<lambda>x. createdAt x \<noteq> None) R) @
        filter (\<lambda>x. createdAt x = None) R)"
proof -
  let ?out = "sortedInternships lc ''newest'' R"
  have pos: "j < i" if b: "i < length ?out" "j < length ?out"
    and p: "createdAt (?out ! i) = None" and r: "0 < getTime (?out ! j)" for i j
  proof (rule ccontr)
    assume "\<not> j < i"
    then have "i = j \<or> i < j" by auto
    moreover have z: "getTime (?out ! i) = 0" using p by (simp add: getTime_def)
    moreover have "i < j \<Longrightarrow> getTime (?out ! j) \<le> getTime (?out ! i)"
      using sorted_newest[of lc R] b by (simp add: sorted_wrt_iff_nth_less)
    ultimately show False using r by auto
  qed
  have zero: "\<forall>x. createdAt x = None \<longrightarrow> getTime x = 0"
    by (simp add: getTime_def)
  show ?thesis
    using sorted_newest[of lc R] sorted_oldest[of lc R] mset_sortedInternships[of lc _ R]
      pos zero newest_pending_last[of R lc]
    by blast
qed

theorem sortedInternships_time_order_witness:
  "sortedInternships codeUnitCompare ''newest'' [pendingRecord, acme, zen] =
     sortedInternships codeUnitCompare ''newest'' [acme, zen] @ [pendingRecord] \<and>
   sortedInternships codeUnitCompare ''newest'' [pendingRecord, acme, zen] =
     [zen, acme, pendingRecord]"
proof -
  have h: "\<forall>x\<in>set [pendingRecord, acme, zen]. createdAt x \<noteq> None \<longrightarrow> 0 < getTime x"
    by (simp add: pendingRecord_def acme_def zen_def getTime_def)
  have f: "filter (\<lambda>x. createdAt x \<noteq> None) [pendingRecord, acme, zen] = [acme, zen]"
          "filter (\<lambda>x. createdAt x = None) [pendingRecord, acme, zen] = [pendingRecord]"
    by (simp_all add: pendingRecord_def acme_def zen_def)
  have s: "sortedInternships codeUnitCompare ''newest'' [acme, zen] = [zen, acme]"
    by (simp add: sortedInternships_def array_sort_def compareInternships_def getTime_def
          acme_def zen_def)
  from sortedInternships_time_order[of codeUnitCompare "[pendingRecord, acme, zen]"] h
  have "sortedInternships codeUnitCompare ''newest'' [pendingRecord, acme, zen] =
        sortedInternships codeUnitCompare ''newest''
          (filter (\<lambda>x. createdAt x \<noteq> None) [pendingRecord, acme, zen]) @
        filter (\<lambda>x. createdAt x = None) [pendingRecord, acme, zen]"
    by blast
  with f s show ?thesis by simp
qed

text \<open>
  A record with no resolved creation time does not always land below all records with
  resolved timestamps: it is sorted above a record dated before the epoch.
\<close>

theorem sortedInternships_time_order_counterexample:
  "createdAt pendingRecord = None \<and> createdAt oldRecord = Some (- 86400000) \<and>
   sortedInternships codeUnitCompare ''newest'' [oldRecord, pendingRecord] =
     [pendingRecord, oldRecord]"
  by (simp add: sortedInternships_def array_sort_def compareInternships_def getTime_def
        pendingRecord_def oldRecord_def)

subsection \<open>By company\<close>

lemma sorted_wrt_unique:
  assumes "sorted_wrt R xs" "sorted_wrt R ys" "set xs = set ys" "distinct xs" "distinct ys"
    and anti: "\<And>a b. a \<in> set xs \<Longrightarrow> b \<in> set xs \<Longrightarrow> R a b \<Longrightarrow> R b a \<Longrightarrow> a = b"
  shows "xs = ys"
  using assms
proof (induction xs arbitrary: ys)
  case Nil
  then show ?case by simp
next
  case (Cons x xs)
  then obtain y ys' where ys: "ys = y # ys'" by (cases ys) auto
  have xy: "x = y"
  proof (rule ccontr)
    assume ne: "x \<noteq> y"
    with Cons.prems(3) ys have "x \<in> set ys'" "y \<in> set xs" by auto
    with Cons.prems(1,2) ys have "R y x" "R x y" by auto
    with Cons.prems(6)[of x y] ne \<open>y \<in> set xs\<close> show False by auto
  qed
  from Cons.prems(4,5) ys xy have "y \<notin> set xs" "y \<notin> set ys'" by auto
  moreover from Cons.prems(3) ys xy have "insert y (set xs) = insert y (set ys')" by simp
  ultimately have s: "set xs = set ys'" by (metis insert_ident)
  have "xs = ys'"
    using Cons.prems ys s by (intro Cons.IH) auto
  with xy ys show ?case by simp
qed

lemma consistent_sign_zero:
  assumes "consistent_compare lc" shows "lc a a = 0"
proof -
  from assms have "(lc a a < 0) = (0 < lc a a)" unfolding consistent_compare_def by blast
  then show ?thesis by linarith
qed

lemma sorted_by_compare:
  assumes cons: "consistent_compare lc"
  shows "sorted_wrt (\<lambda>a b. lc (k a) (k b) \<le> 0) (array_sort (\<lambda>a b. lc (k a) (k b)) R)"
proof (rule sorted_array_sort)
  fix a b assume "0 < lc (k a) (k b)"
  with cons have "lc (k b) (k a) < 0" unfolding consistent_compare_def by blast
  then show "lc (k b) (k a) \<le> 0" by simp
next
  fix a b c assume "lc (k a) (k b) \<le> 0" "lc (k b) (k c) \<le> 0"
  with cons show "lc (k a) (k c) \<le> 0" unfolding consistent_compare_def by blast
qed

lemma sorted_by_compare_flipped:
  assumes cons: "consistent_compare lc"
  shows "sorted_wrt (\<lambda>a b. lc (k b) (k a) \<le> 0) (array_sort (\<lambda>a b. lc (k b) (k a)) R)"
proof (rule sorted_array_sort)
  fix a b assume "0 < lc (k b) (k a)"
  with cons have "lc (k a) (k b) < 0" unfolding consistent_compare_def by blast
  then show "lc (k a) (k b) \<le> 0" by simp
next
  fix a b c assume "lc (k b) (k a) \<le> 0" "lc (k c) (k b) \<le> 0"
  with cons show "lc (k c) (k a) \<le> 0" unfolding consistent_compare_def by blast
qed

lemma codeUnitCompare_anti: "(codeUnitCompare a b < 0) = (0 < codeUnitCompare b a)"
proof (induction a b rule: codeUnitCompare.induct)
  case (4 x xs y ys)
  then show ?case
    by (cases "(of_char x :: nat) < of_char y"; cases "(of_char y :: nat) < of_char x")
       simp_all
qed simp_all

lemma codeUnitCompare_trans:
  "codeUnitCompare a b \<le> 0 \<Longrightarrow> codeUnitCompare b c \<le> 0 \<Longrightarrow> codeUnitCompare a c \<le> 0"
proof (induction a b arbitrary: c rule: codeUnitCompare.induct)
  case 1
  then show ?case by simp
next
  case (2 y ys)
  then show ?case by (cases c) simp_all
next
  case (3 x xs)
  then show ?case by simp
next
  case (4 x xs y ys)
  show ?case
  proof (cases c)
    case Nil
    with 4 show ?thesis by simp
  next
    case (Cons z zs)
    let ?x = "of_char x :: nat" and ?y = "of_char y :: nat" and ?z = "of_char z :: nat"
    from "4.prems"(1) have xy: "?x \<le> ?y" by (simp split: if_splits)
    from "4.prems"(2) Cons have yz: "?y \<le> ?z" by (simp split: if_splits)
    show ?thesis
    proof (cases "?x < ?z")
      case True
      with Cons show ?thesis by simp
    next
      case False
      with xy yz have e: "?x = ?y" "?y = ?z" by linarith+
      with "4.prems" Cons have "codeUnitCompare xs ys \<le> 0" "codeUnitCompare ys zs \<le> 0"
        by simp_all
      with "4.IH" e have "codeUnitCompare xs zs \<le> 0" by simp
      with e Cons show ?thesis by simp
    qed
  qed
qed

lemma consistent_codeUnitCompare: "consistent_compare codeUnitCompare"
  unfolding consistent_compare_def
  using codeUnitCompare_anti codeUnitCompare_trans by blast

text \<open>
  C6. Let \<^verbatim>\<open>localeCompare\<close> be a consistent comparator, and let the company names of the
  filtered set be pairwise distinct under the comparison the code makes: for two
  different positions, \<^verbatim>\<open>localeCompare\<close> of the lower-cased names is not zero. Then
  the sequence sorted with \<open>company-za\<close> is the reverse of the sequence sorted with
  \<open>company-az\<close>.
\<close>

theorem company_za_reverses_az:
  assumes cons: "consistent_compare lc"
    and noties: "\<forall>i<length R. \<forall>j<length R. i \<noteq> j \<longrightarrow>
        lc (toLowerCase (company (R ! i))) (toLowerCase (company (R ! j))) \<noteq> 0"
  shows "sortedInternships lc ''company-za'' R = rev (sortedInternships lc ''company-az'' R)"
proof -
  let ?k = "\<lambda>x. toLowerCase (company x)"
  let ?az = "sortedInternships lc ''company-az'' R"
  let ?za = "sortedInternships lc ''company-za'' R"
  let ?le = "\<lambda>a b. lc (?k a) (?k b) \<le> 0"
  have caz: "compareInternships lc ''company-az'' = (\<lambda>a b. lc (?k a) (?k b))"
    by (intro ext) (simp add: compareInternships_def)
  have cza: "compareInternships lc ''company-za'' = (\<lambda>a b. lc (?k b) (?k a))"
    by (intro ext) (simp add: compareInternships_def)
  have saz: "sorted_wrt ?le ?az"
    unfolding sortedInternships_def caz by (rule sorted_by_compare[OF cons])
  have "sorted_wrt (\<lambda>a b. lc (?k b) (?k a) \<le> 0) ?za"
    unfolding sortedInternships_def cza by (rule sorted_by_compare_flipped[OF cons])
  then have sza: "sorted_wrt ?le (rev ?za)"
    by (simp only: sorted_wrt_rev)
  have dR: "distinct R"
    unfolding distinct_conv_nth
  proof (intro allI impI)
    fix i j assume "i < length R" "j < length R" "i \<noteq> j"
    with noties have "lc (?k (R ! i)) (?k (R ! j)) \<noteq> 0" by blast
    then show "R ! i \<noteq> R ! j" using consistent_sign_zero[OF cons] by metis
  qed
  have maz: "mset ?az = mset R" and mza: "mset ?za = mset R"
    by (rule mset_sortedInternships)+
  have daz: "distinct ?az"
    using dR maz by (metis mset_eq_imp_distinct_iff)
  have dza: "distinct (rev ?za)"
    using dR mza by (metis distinct_rev mset_eq_imp_distinct_iff)
  have setR: "set (rev ?za) = set R"
    using mza by (metis set_rev set_mset_mset)
  have sets: "set (rev ?za) = set ?az"
    using setR maz by (metis set_mset_mset)
  have uniq: "a = b"
    if "a \<in> set (rev ?za)" "b \<in> set (rev ?za)" "?le a b" "?le b a" for a b
  proof -
    from that(1,2) setR obtain i j
      where ij: "i < length R" "j < length R" "a = R ! i" "b = R ! j"
      by (metis in_set_conv_nth)
    have "(lc (?k a) (?k b) < 0) = (0 < lc (?k b) (?k a))"
      using cons unfolding consistent_compare_def by blast
    moreover have "(lc (?k b) (?k a) < 0) = (0 < lc (?k a) (?k b))"
      using cons unfolding consistent_compare_def by blast
    ultimately have "lc (?k a) (?k b) = 0" using that(3,4) by linarith
    with noties ij have "i = j" by blast
    with ij show ?thesis by simp
  qed
  have "rev ?za = ?az"
    by (rule sorted_wrt_unique[OF sza saz sets dza daz]) (rule uniq)
  then show ?thesis by (metis rev_rev_ident)
qed

theorem company_za_reverses_az_witness:
  "sortedInternships codeUnitCompare ''company-za'' [zen, acme, pendingRecord] =
     rev (sortedInternships codeUnitCompare ''company-az'' [zen, acme, pendingRecord]) \<and>
   sortedInternships codeUnitCompare ''company-az'' [zen, acme, pendingRecord] =
     [acme, pendingRecord, zen]"
proof -
  have k: "toLowerCase (company zen) = ''zen''" "toLowerCase (company acme) = ''acme''"
          "toLowerCase (company pendingRecord) = ''moon''"
    by code_simp+
  have n: "\<forall>i<length [zen, acme, pendingRecord]. \<forall>j<length [zen, acme, pendingRecord]. i \<noteq> j \<longrightarrow>
        codeUnitCompare (toLowerCase (company ([zen, acme, pendingRecord] ! i)))
          (toLowerCase (company ([zen, acme, pendingRecord] ! j))) \<noteq> 0"
    using k by (auto simp add: less_Suc_eq)
  have az: "sortedInternships codeUnitCompare ''company-az'' [zen, acme, pendingRecord] =
        [acme, pendingRecord, zen]"
    using k by (simp add: sortedInternships_def array_sort_def compareInternships_def)
  from company_za_reverses_az[OF consistent_codeUnitCompare n] az
  show ?thesis by simp
qed

section \<open>One render: what it returns, what it writes, when it throws\<close>























section \<open>The typed definitions agree with the run-time ones\<close>

lemma str_inject: "(str a = str b) = (a = b)"
  unfolding str_def by (simp add: inj_map_eq_map inj_on_def)

lemma unstr_str: "map char_of (str a) = a"
  by (simp add: str_def comp_def)

lemma str_append: "str (a @ b) = str a @ str b"
  by (simp add: str_def)

lemma isWhiteSpaceUnit_small:
  "n < 256 \<Longrightarrow> isWhiteSpaceUnit n = (n \<in> {9, 10, 11, 12, 13, 32, 160})"
  by (auto simp add: isWhiteSpaceUnit_def)

lemma isWhiteSpaceUnit_of_char: "isWhiteSpaceUnit (of_char c) = isWhiteSpace c"
  by (simp add: isWhiteSpaceUnit_small isWhiteSpace_def)

lemma trim_rt_str: "trim_rt (str s) = str (trim s)"
proof -
  have d: "\<And>xs. dropWhile isWhiteSpaceUnit (map of_char xs) =
      map of_char (dropWhile isWhiteSpace (xs :: string))"
    by (simp add: dropWhile_map comp_def isWhiteSpaceUnit_of_char)
  show ?thesis
    by (simp add: trim_rt_def trim_def str_def d rev_map)
qed

lemma lowerUnit_small:
  "n < 256 \<Longrightarrow>
   lowerUnit n =
     (if (65 \<le> n \<and> n \<le> 90) \<or> (192 \<le> n \<and> n \<le> 222 \<and> n \<noteq> 215) then n + 32 else n)"
  by (auto simp add: lowerUnit_def)

lemma lowerUnit_of_char: "lowerUnit (of_char c) = of_char (lowerChar c)"
  by (auto simp add: lowerUnit_small lowerChar_def Let_def)

lemma unicodeLowerCase_str: "unicodeLowerCase (str t) = str (toLowerCase t)"
  using unicodeLowerCase_latin1[OF set_str, of t]
  by (simp add: str_def toLowerCase_def lowerUnit_of_char)

lemma str_includes_str: "str_includes (str a) (str b) = str_includes a b"
proof
  assume "str_includes (str a) (str b)"
  then obtain ps ss where "map of_char a = ps @ (str b :: nat list) @ ss"
    unfolding str_includes_iff str_def by blast
  then obtain ps' m ss' where d: "a = ps' @ m @ ss'" and m: "map of_char m = str b"
    using map_segment by metis
  from m have "m = b" using str_inject[of m b] by (simp add: str_def)
  with d show "str_includes a b" unfolding str_includes_iff by blast
next
  assume "str_includes a b"
  then obtain ps ss where "a = ps @ b @ ss" unfolding str_includes_iff by blast
  then have "str a = str ps @ str b @ str ss" by (simp add: str_append)
  then show "str_includes (str a) (str b)" unfolding str_includes_iff by blast
qed

lemma searchText_toRt:
  "searchText (toRt x) =
     str (company x @ '' '' @ role x @ '' '' @ nullish (item_notes x) '''')"
  by (simp add: searchText_def toRt_def nullishV_def nullish_def str_append
        split: option.splits) (simp add: str_def)

lemma matchesSearch_toRt: "matchesSearch_rt (latinHost lc) (str s) (toRt x) = matchesSearch s x"
proof -
  have n: "normalizedSearch_rt (latinHost lc) (str s) = str (normalizedSearch s)"
    by (simp add: normalizedSearch_rt_def normalizedSearch_def latinHost_def trim_rt_str
          unicodeLowerCase_str)
  have h: "haystack_rt (latinHost lc) (toRt x) = str (haystack x)"
    by (simp add: haystack_rt_def haystack_def latinHost_def searchText_toRt
          unicodeLowerCase_str)
  have e: "(str (normalizedSearch s) = str '''') = (normalizedSearch s = '''')"
    by (rule str_inject)
  show ?thesis
    unfolding matchesSearch_rt_def matchesSearch_def n h e str_includes_str ..
qed

lemma matchesStatus_toRt: "matchesStatus_rt (str f) (toRt x) = matchesStatus f x"
  by (simp add: matchesStatus_rt_def matchesStatus_def toRt_def str_inject)

lemma filtered_toRt:
  "filteredInternships_rt (latinHost lc) (str f) (str s) (map toRt R) =
   map toRt (filteredInternships f s R)"
  by (simp add: filteredInternships_rt_def filteredInternships_def filter_map comp_def
        matchesSearch_toRt matchesStatus_toRt)

lemma insert_rt_map:
  assumes "\<forall>a b. cmp' (g a) (g b) = Inr (cmp a b)"
  shows "insert_rt cmp' (g x) (map g ys) = Inr (map g (insert_sorted cmp x ys))"
  by (induction ys) (simp_all add: assms)

lemma sort_rt_map:
  assumes "\<forall>a b. cmp' (g a) (g b) = Inr (cmp a b)"
  shows "sort_rt cmp' (map g xs) = Inr (map g (array_sort cmp xs))"
  by (induction xs)
     (simp_all add: array_sort_def insert_rt_map[where cmp'=cmp' and g=g and cmp=cmp, OF assms])

lemma getTime_toRt: "getTime_rt (toRt x) = Inr (getTime x)"
  by (simp add: getTime_rt_def getTime_def toRt_def split: option.splits)

lemma companyLower_toRt:
  "companyLower (latinHost lc) (toRt x) = Inr (str (toLowerCase (company x)))"
  by (simp add: companyLower_def toRt_def latinHost_def unicodeLowerCase_str)

lemma compare_toRt:
  "compare_rt (latinHost lc) (str so) (toRt a) (toRt b) = Inr (compareInternships lc so a b)"
proof -
  have l: "\<And>u v. host_localeCompare (latinHost lc) (str u) (str v) = lc u v"
    by (simp add: latinHost_def unstr_str)
  show ?thesis
    by (simp add: compare_rt_def compareInternships_def getTime_toRt companyLower_toRt l
          str_inject Let_def)
qed

lemma sorted_toRt:
  "sortedInternships_rt (latinHost lc) (str so) (map toRt F) =
   Inr (map toRt (sortedInternships lc so F))"
  unfolding sortedInternships_rt_def sortedInternships_def
  by (rule sort_rt_map) (simp add: compare_toRt)

lemma statusCounts_toRt: "statusCounts_rt (map toRt R) (str k) = statusCounts R k"
proof -
  have f: "\<And>v. length (filter ((\<lambda>i. status_rt i = JString (str v)) \<circ> toRt) R) =
       length (filter (\<lambda>i. status i = v) R)"
    by (simp add: comp_def toRt_def str_inject)
  show ?thesis
    unfolding statusCounts_rt_def statusCounts_def STATUS_OPTIONS_def
    by (simp add: f filter_map str_inject)
qed

lemma wellTyped_toRt: "isInternshipStatus (status x) \<Longrightarrow> wellTyped (toRt x)"
  by (auto simp add: wellTyped_def toRt_def isInternshipStatus_def STATUS_OPTIONS_def
        split: option.splits)

lemma mapDoc_toRt: "mapDoc_rt (docToRt d) = toRt (mapDoc d)"
  by (simp add: mapDoc_rt_def docToRt_def toRt_def mapDoc_def nullishV_def nullishC_def
        nullish_def split: option.splits)

text \<open>
  On records of the declared types with text in Latin-1, the run-time definitions
  compute what the typed definitions compute, and the sort does not throw.
\<close>

lemma typed_reading_agrees:
  "mapSnapshot_rt (map docToRt docs) = map toRt (mapSnapshot docs) \<and>
   statusCounts_rt (map toRt R) (str k) = statusCounts R k \<and>
   filteredInternships_rt (latinHost lc) (str f) (str s) (map toRt R) =
     map toRt (filteredInternships f s R) \<and>
   sortedInternships_rt (latinHost lc) (str so) (map toRt F) =
     Inr (map toRt (sortedInternships lc so F))"
  by (simp add: mapSnapshot_rt_def mapSnapshot_def mapDoc_toRt statusCounts_toRt filtered_toRt
        sorted_toRt)

section \<open>Mutations\<close>

lemma writeFields_four:
  "writeFields d [(k1, v1), (k2, v2), (k3, v3), (k4, v4)] =
     d(k1 \<mapsto> v1, k2 \<mapsto> v2, k3 \<mapsto> v3, k4 \<mapsto> v4)"
  by (simp add: writeFields_def)

lemma handleSubmit_update_call:
  assumes "UpdateDoc uid docId payload \<in> set (snd (handleSubmit dbOk st))"
  shows "payload =
           [(''company'', StringValue (trim (company_st st))),
            (''role'', StringValue (trim (role_st st))),
            (''status'', StringValue (status_st st)),
            (''notes'', StringValue (trim (notes_st st)))] \<and>
         user st = Some uid \<and> isEditing st \<and> editingId st = Some docId"
  using assms
  by (auto simp add: handleSubmit_def Let_def truthy_def split: if_splits option.splits)

text \<open>
  C8. When a submission issues an update, the payload has exactly the keys company,
  role, status and notes, in particular neither the identifier nor \<open>createdAt\<close>, and it
  addresses the record under edit in the signed-in user's collection. So the update
  leaves the set of identifiers of the collection, every other document, and every
  other field of the identified document (\<open>createdAt\<close> among them) as they were, and
  overwrites the four fields with the trimmed form values.
\<close>

theorem update_writes_four_fields:
  assumes "UpdateDoc uid docId payload \<in> set (snd (handleSubmit dbOk st))"
  shows "map fst payload = [''company'', ''role'', ''status'', ''notes''] \<and>
         ''createdAt'' \<notin> set (map fst payload) \<and> ''id'' \<notin> set (map fst payload) \<and>
         user st = Some uid \<and> editingId st = Some docId \<and>
         (\<forall>col col'. updateDoc col docId payload = Some col' \<longrightarrow>
            dom col' = dom col \<and>
            (\<forall>j. j \<noteq> docId \<longrightarrow> col' j = col j) \<and>
            (\<forall>d d'. col docId = Some d \<and> col' docId = Some d' \<longrightarrow>
               d' ''createdAt'' = d ''createdAt'' \<and>
               (\<forall>k. k \<notin> {''company'', ''role'', ''status'', ''notes''} \<longrightarrow> d' k = d k) \<and>
               d' ''company'' = Some (StringValue (trim (company_st st))) \<and>
               d' ''role'' = Some (StringValue (trim (role_st st))) \<and>
               d' ''status'' = Some (StringValue (status_st st)) \<and>
               d' ''notes'' = Some (StringValue (trim (notes_st st)))))"
proof -
  note c = handleSubmit_update_call[OF assms]
  then have p: "payload =
           [(''company'', StringValue (trim (company_st st))),
            (''role'', StringValue (trim (role_st st))),
            (''status'', StringValue (status_st st)),
            (''notes'', StringValue (trim (notes_st st)))]" by simp
  have keys: "map fst payload = [''company'', ''role'', ''status'', ''notes'']"
    unfolding p by simp
  have frame: "dom col' = dom col \<and>
            (\<forall>j. j \<noteq> docId \<longrightarrow> col' j = col j) \<and>
            (\<forall>d d'. col docId = Some d \<and> col' docId = Some d' \<longrightarrow>
               d' ''createdAt'' = d ''createdAt'' \<and>
               (\<forall>k. k \<notin> {''company'', ''role'', ''status'', ''notes''} \<longrightarrow> d' k = d k) \<and>
               d' ''company'' = Some (StringValue (trim (company_st st))) \<and>
               d' ''role'' = Some (StringValue (trim (role_st st))) \<and>
               d' ''status'' = Some (StringValue (status_st st)) \<and>
               d' ''notes'' = Some (StringValue (trim (notes_st st))))"
    if u: "updateDoc col docId payload = Some col'" for col col'
  proof -
    from u obtain d0 where d0: "col docId = Some d0"
      and c': "col' = col(docId \<mapsto> writeFields d0 payload)"
      by (auto simp add: updateDoc_def split: option.splits)
    show ?thesis
      unfolding c' p writeFields_four using d0 by auto
  qed
  show ?thesis
    using keys c frame by (simp (no_asm_simp))
qed

theorem update_writes_four_fields_witness:
  "UpdateDoc ''u1'' ''1''
      [(''company'', StringValue ''Acme''), (''role'', StringValue ''Intern''),
       (''status'', StringValue ''interview''), (''notes'', StringValue ''call back'')]
     \<in> set (snd (handleSubmit (\<lambda>call. True)
           (step (FormTyped ''Acme '' ''Intern'' ''interview'' '' call back'')
              (handleEdit acme (mount (Some ''u1'')))))) \<and>
   map fst
      [(''company'', StringValue ''Acme''), (''role'', StringValue ''Intern''),
       (''status'', StringValue ''interview''), (''notes'', StringValue ''call back'')] =
     [''company'', ''role'', ''status'', ''notes''] \<and>
   updateDoc [''1'' \<mapsto> [''company'' \<mapsto> StringValue ''Acme'', ''createdAt'' \<mapsto> TimeValue 1700000000000]]
      ''1''
      [(''company'', StringValue ''Acme''), (''role'', StringValue ''Intern''),
       (''status'', StringValue ''interview''), (''notes'', StringValue ''call back'')] \<noteq> None"
proof -
  let ?st = "step (FormTyped ''Acme '' ''Intern'' ''interview'' '' call back'')
              (handleEdit acme (mount (Some ''u1'')))"
  let ?p = "[(''company'', StringValue ''Acme''), (''role'', StringValue ''Intern''),
       (''status'', StringValue ''interview''), (''notes'', StringValue ''call back'')]"
  have t: "trim ''Acme '' = ''Acme''" "trim ''Intern'' = ''Intern''"
    "trim '' call back'' = ''call back''"
    by (simp_all add: trim_def isWhiteSpace_def)
  have call: "UpdateDoc ''u1'' ''1'' ?p \<in> set (snd (handleSubmit (\<lambda>call. True) ?st))"
    using t
    by (simp add: handleSubmit_def handleEdit_def mount_def subscriptionEffect_def
          initialState_def truthy_def acme_def Let_def)
  have u: "updateDoc [''1'' \<mapsto> [''company'' \<mapsto> StringValue ''Acme'', ''createdAt'' \<mapsto> TimeValue 1700000000000]]
      ''1'' ?p \<noteq> None"
    by (simp add: updateDoc_def)
  from update_writes_four_fields[OF call] call u show ?thesis by simp
qed

text \<open>
  C9. A submission whose company or role is empty after trimming makes no database
  call and sets the validation message. A submission with no signed-in user makes no
  database call either and sets the sign-in message (when company and role are given).
  A delete with no signed-in user makes no database call and changes nothing.
\<close>

theorem mutations_rejected_locally:
  "(trim (company_st st) = '''' \<or> trim (role_st st) = '''' \<longrightarrow>
      handleSubmit dbOk st = (st\<lparr>error := Some ''Please enter both company and role.''\<rparr>, [])) \<and>
   (user st = None \<and> trim (company_st st) \<noteq> '''' \<and> trim (role_st st) \<noteq> '''' \<longrightarrow>
      handleSubmit dbOk st =
        (st\<lparr>error := Some ''You must be logged in to add or edit internships.''\<rparr>, [])) \<and>
   (user st = None \<longrightarrow> snd (handleSubmit dbOk st) = []) \<and>
   (user st = None \<longrightarrow> handleDelete dbOk confirmed docId st = (st, []))"
  by (simp add: handleSubmit_def handleDelete_def Let_def)

theorem mutations_rejected_locally_witness:
  "handleSubmit (\<lambda>call. True)
      (step (FormTyped ''Acme'' ''Intern'' ''applied'' '''') (mount None)) =
     ((step (FormTyped ''Acme'' ''Intern'' ''applied'' '''') (mount None))
        \<lparr>error := Some ''You must be logged in to add or edit internships.''\<rparr>, []) \<and>
   handleSubmit (\<lambda>call. True)
      (step (FormTyped ''  '' ''Intern'' ''applied'' '''') (mount (Some ''u1''))) =
     ((step (FormTyped ''  '' ''Intern'' ''applied'' '''') (mount (Some ''u1'')))
        \<lparr>error := Some ''Please enter both company and role.''\<rparr>, []) \<and>
   handleDelete (\<lambda>call. True) True ''1'' (mount None) = (mount None, [])"
proof -
  let ?a = "step (FormTyped ''Acme'' ''Intern'' ''applied'' '''') (mount None)"
  let ?b = "step (FormTyped ''  '' ''Intern'' ''applied'' '''') (mount (Some ''u1''))"
  have ua: "user ?a = None" "user (mount None) = None"
    by (simp_all add: mount_def subscriptionEffect_def initialState_def)
  have ta: "trim (company_st ?a) \<noteq> ''''" "trim (role_st ?a) \<noteq> ''''"
    by (simp_all add: trim_def isWhiteSpace_def)
  have tb: "trim (company_st ?b) = ''''"
    by (simp add: trim_def isWhiteSpace_def)
  from mutations_rejected_locally[of ?a "\<lambda>call. True"] ua ta
  have 1: "handleSubmit (\<lambda>call. True) ?a =
      (?a\<lparr>error := Some ''You must be logged in to add or edit internships.''\<rparr>, [])"
    by blast
  from mutations_rejected_locally[of ?b "\<lambda>call. True"] tb
  have 2: "handleSubmit (\<lambda>call. True) ?b =
      (?b\<lparr>error := Some ''Please enter both company and role.''\<rparr>, [])"
    by blast
  from mutations_rejected_locally[of "mount None" "\<lambda>call. True" True "''1''"] ua
  have 3: "handleDelete (\<lambda>call. True) True ''1'' (mount None) = (mount None, [])"
    by blast
  from 1 2 3 show ?thesis by blast
qed

section \<open>Signing out\<close>

lemma cache_guarded_mount: "cache_guarded (mount u)"
  by (cases u) (simp_all add: cache_guarded_def mount_def subscriptionEffect_def initialState_def)

lemma handleSubmit_frame:
  "user (fst (handleSubmit dbOk st)) = user st \<and>
   subscription (fst (handleSubmit dbOk st)) = subscription st \<and>
   internships (fst (handleSubmit dbOk st)) = internships st"
  by (simp add: handleSubmit_def Let_def resetForm_def split: option.splits)

lemma handleDelete_frame:
  "user (fst (handleDelete dbOk c i st)) = user st \<and>
   subscription (fst (handleDelete dbOk c i st)) = subscription st \<and>
   internships (fst (handleDelete dbOk c i st)) = internships st"
  by (simp add: handleDelete_def Let_def split: option.splits)

lemma cache_guarded_step: "cache_guarded st \<Longrightarrow> cache_guarded (step e st)"
proof (cases e)
  case (AuthChanged u)
  assume "cache_guarded st"
  then show ?thesis
    unfolding AuthChanged
    by (cases u) (auto simp add: cache_guarded_def userChanged_def subscriptionEffect_def unsub_def)
next
  case (Submitted ok)
  assume "cache_guarded st"
  then show ?thesis
    unfolding Submitted by (simp add: cache_guarded_def handleSubmit_frame)
next
  case (DeleteClicked i c ok)
  assume "cache_guarded st"
  then show ?thesis
    unfolding DeleteClicked by (simp add: cache_guarded_def handleDelete_frame)
qed (auto simp add: cache_guarded_def onSnapshotNext_def onSnapshotError_def handleEdit_def
       handleCancelEdit_def resetForm_def)

lemma cache_guarded_foldl:
  "cache_guarded st \<Longrightarrow> cache_guarded (foldl (\<lambda>st e. step e st) st evs)"
  by (induction evs arbitrary: st) (simp_all add: cache_guarded_step)

lemma cache_guarded_run: "cache_guarded (run u evs)"
  unfolding run_def by (rule cache_guarded_foldl[OF cache_guarded_mount])

text \<open>
  C10. When the user of a signed-in session becomes none, the cleanup tears the
  listener down and the effect resets the cache to the empty list. In every state a
  session reaches, the live listener is the current user's, and with no user signed in
  the cache is empty and no listener is live.
\<close>

theorem signed_out_cache_empty:
  "(user st \<noteq> None \<longrightarrow>
      user (step (AuthChanged None) st) = None \<and>
      internships (step (AuthChanged None) st) = [] \<and>
      subscription (step (AuthChanged None) st) = None) \<and>
   (user (run u evs) = None \<longrightarrow>
      internships (run u evs) = [] \<and> subscription (run u evs) = None) \<and>
   subscription (run u evs) = user (run u evs)"
proof -
  have "user st \<noteq> None \<longrightarrow>
      user (step (AuthChanged None) st) = None \<and>
      internships (step (AuthChanged None) st) = [] \<and>
      subscription (step (AuthChanged None) st) = None"
    by (auto simp add: userChanged_def subscriptionEffect_def unsub_def)
  with cache_guarded_run[of u evs] show ?thesis
    unfolding cache_guarded_def by auto
qed

theorem signed_out_cache_empty_witness:
  "user (run (Some ''u1'') [SnapshotNext [archivedDoc]]) \<noteq> None \<and>
   internships (run (Some ''u1'') [SnapshotNext [archivedDoc]]) = [mapDoc archivedDoc] \<and>
   user (run (Some ''u1'') [SnapshotNext [archivedDoc], AuthChanged None]) = None \<and>
   internships (run (Some ''u1'') [SnapshotNext [archivedDoc], AuthChanged None]) = [] \<and>
   subscription (run (Some ''u1'') [SnapshotNext [archivedDoc], AuthChanged None]) = None \<and>
   internships
     (run (Some ''u1'') [SnapshotNext [archivedDoc], AuthChanged None, SnapshotNext [archivedDoc]]) = []"
proof -
  let ?s1 = "run (Some ''u1'') [SnapshotNext [archivedDoc]]"
  let ?s2 = "run (Some ''u1'') [SnapshotNext [archivedDoc], AuthChanged None]"
  let ?s3 = "run (Some ''u1'') [SnapshotNext [archivedDoc], AuthChanged None, SnapshotNext [archivedDoc]]"
  have u1: "user ?s1 \<noteq> None" "internships ?s1 = [mapDoc archivedDoc]"
    by (simp_all add: run_def mount_def subscriptionEffect_def initialState_def
          onSnapshotNext_def mapSnapshot_def)
  have s2: "?s2 = step (AuthChanged None) ?s1" by (simp add: run_def)
  have u3: "user ?s3 = None"
    by (simp add: run_def mount_def subscriptionEffect_def initialState_def
          onSnapshotNext_def userChanged_def unsub_def)
  from signed_out_cache_empty[of ?s1] u1 s2
  have a: "user ?s2 = None \<and> internships ?s2 = [] \<and> subscription ?s2 = None" by simp
  from signed_out_cache_empty[of ?s1 "Some ''u1''"
      "[SnapshotNext [archivedDoc], AuthChanged None, SnapshotNext [archivedDoc]]"] u3
  have b: "internships ?s3 = []" by blast
  from u1 a b show ?thesis by blast
qed

end
